theory Spec2Isabelle
  imports Main "HOL-Library.Word"
begin

unbundle bit_operations_syntax

section \<open>Machine types\<close>

text \<open>
  The C types of \<^verbatim>\<open>section.c\<close> on the LP64 hosts the tool chain is built for:
  \<^verbatim>\<open>uint8_t\<close> is an 8-bit word, \<^verbatim>\<open>unsigned int\<close> and \<^verbatim>\<open>flagword\<close> are 32-bit words,
  \<^verbatim>\<open>bfd_size_type\<close> and \<^verbatim>\<open>size_t\<close> are unsigned 64-bit words and \<^verbatim>\<open>file_ptr\<close> is a
  signed 64-bit word. Loop counters of type \<^verbatim>\<open>size_t\<close> that only count up to a bound
  are natural numbers.
\<close>

type_synonym byte = "8 word"
type_synonym uint = "32 word"
type_synonym flagword = "32 word"
type_synonym bfd_size_type = "64 word"
type_synonym file_ptr = "64 word"
type_synonym size_t = "64 word"

section \<open>AES-CTR cipher engine\<close>

abbreviation (input) AES_BLOCKLEN :: nat where "AES_BLOCKLEN \<equiv> 16"
abbreviation (input) AES_KEY_LEN :: nat where "AES_KEY_LEN \<equiv> 16"
abbreviation (input) AES_Nb :: nat where "AES_Nb \<equiv> 4"
abbreviation (input) AES_Nk :: nat where "AES_Nk \<equiv> 4"
abbreviation (input) AES_Nr :: nat where "AES_Nr \<equiv> 10"
abbreviation (input) AES_keyExpSize :: nat where "AES_keyExpSize \<equiv> 176"

record AES_ctx =
  ctx_RoundKey :: "byte list"
  ctx_Iv :: "byte list"

definition AES_sbox :: "byte list" where
  "AES_sbox = [
    0x63, 0x7c, 0x77, 0x7b, 0xf2, 0x6b, 0x6f, 0xc5, 0x30, 0x01, 0x67, 0x2b, 0xfe, 0xd7, 0xab, 0x76,
    0xca, 0x82, 0xc9, 0x7d, 0xfa, 0x59, 0x47, 0xf0, 0xad, 0xd4, 0xa2, 0xaf, 0x9c, 0xa4, 0x72, 0xc0,
    0xb7, 0xfd, 0x93, 0x26, 0x36, 0x3f, 0xf7, 0xcc, 0x34, 0xa5, 0xe5, 0xf1, 0x71, 0xd8, 0x31, 0x15,
    0x04, 0xc7, 0x23, 0xc3, 0x18, 0x96, 0x05, 0x9a, 0x07, 0x12, 0x80, 0xe2, 0xeb, 0x27, 0xb2, 0x75,
    0x09, 0x83, 0x2c, 0x1a, 0x1b, 0x6e, 0x5a, 0xa0, 0x52, 0x3b, 0xd6, 0xb3, 0x29, 0xe3, 0x2f, 0x84,
    0x53, 0xd1, 0x00, 0xed, 0x20, 0xfc, 0xb1, 0x5b, 0x6a, 0xcb, 0xbe, 0x39, 0x4a, 0x4c, 0x58, 0xcf,
    0xd0, 0xef, 0xaa, 0xfb, 0x43, 0x4d, 0x33, 0x85, 0x45, 0xf9, 0x02, 0x7f, 0x50, 0x3c, 0x9f, 0xa8,
    0x51, 0xa3, 0x40, 0x8f, 0x92, 0x9d, 0x38, 0xf5, 0xbc, 0xb6, 0xda, 0x21, 0x10, 0xff, 0xf3, 0xd2,
    0xcd, 0x0c, 0x13, 0xec, 0x5f, 0x97, 0x44, 0x17, 0xc4, 0xa7, 0x7e, 0x3d, 0x64, 0x5d, 0x19, 0x73,
    0x60, 0x81, 0x4f, 0xdc, 0x22, 0x2a, 0x90, 0x88, 0x46, 0xee, 0xb8, 0x14, 0xde, 0x5e, 0x0b, 0xdb,
    0xe0, 0x32, 0x3a, 0x0a, 0x49, 0x06, 0x24, 0x5c, 0xc2, 0xd3, 0xac, 0x62, 0x91, 0x95, 0xe4, 0x79,
    0xe7, 0xc8, 0x37, 0x6d, 0x8d, 0xd5, 0x4e, 0xa9, 0x6c, 0x56, 0xf4, 0xea, 0x65, 0x7a, 0xae, 0x08,
    0xba, 0x78, 0x25, 0x2e, 0x1c, 0xa6, 0xb4, 0xc6, 0xe8, 0xdd, 0x74, 0x1f, 0x4b, 0xbd, 0x8b, 0x8a,
    0x70, 0x3e, 0xb5, 0x66, 0x48, 0x03, 0xf6, 0x0e, 0x61, 0x35, 0x57, 0xb9, 0x86, 0xc1, 0x1d, 0x9e,
    0xe1, 0xf8, 0x98, 0x11, 0x69, 0xd9, 0x8e, 0x94, 0x9b, 0x1e, 0x87, 0xe9, 0xce, 0x55, 0x28, 0xdf,
    0x8c, 0xa1, 0x89, 0x0d, 0xbf, 0xe6, 0x42, 0x68, 0x41, 0x99, 0x2d, 0x0f, 0xb0, 0x54, 0xbb, 0x16]"

definition AES_Rcon :: "byte list" where
  "AES_Rcon = [0x8d, 0x01, 0x02, 0x04, 0x08, 0x10, 0x20, 0x40, 0x80, 0x1b, 0x36]"

definition AES_getSBoxValue :: "byte \<Rightarrow> byte" where
  "AES_getSBoxValue num = AES_sbox ! unat num"

text \<open>
  \<^verbatim>\<open>AES_KeyExpansion\<close>: the first loop copies the key into the first \<open>AES_Nk\<close> words of
  the schedule, the second derives word \<open>i\<close> from words \<open>i - 1\<close> and \<open>i - AES_Nk\<close>.
  \<open>tempa\<close> is the four-byte scratch word of the source.
\<close>

definition KeyExpansion_copy :: "byte list \<Rightarrow> nat \<Rightarrow> byte list \<Rightarrow> byte list" where
  "KeyExpansion_copy Key i RoundKey =
     RoundKey[i * 4 + 0 := Key ! (i * 4 + 0),
              i * 4 + 1 := Key ! (i * 4 + 1),
              i * 4 + 2 := Key ! (i * 4 + 2),
              i * 4 + 3 := Key ! (i * 4 + 3)]"

definition KeyExpansion_word :: "nat \<Rightarrow> byte list \<Rightarrow> byte list" where
  "KeyExpansion_word i RoundKey =
     (let k = (i - 1) * 4;
          tempa = (RoundKey ! (k + 0), RoundKey ! (k + 1), RoundKey ! (k + 2), RoundKey ! (k + 3));
          tempa = (if i mod AES_Nk = 0
                   then (case tempa of (a0, a1, a2, a3) \<Rightarrow>
                           (AES_getSBoxValue a1 XOR AES_Rcon ! (i div AES_Nk),
                            AES_getSBoxValue a2, AES_getSBoxValue a3, AES_getSBoxValue a0))
                   else tempa);
          j = i * 4;
          k = (i - AES_Nk) * 4
      in case tempa of (t0, t1, t2, t3) \<Rightarrow>
           RoundKey[j + 0 := RoundKey ! (k + 0) XOR t0,
                    j + 1 := RoundKey ! (k + 1) XOR t1,
                    j + 2 := RoundKey ! (k + 2) XOR t2,
                    j + 3 := RoundKey ! (k + 3) XOR t3])"

definition AES_KeyExpansion :: "byte list \<Rightarrow> byte list \<Rightarrow> byte list" where
  "AES_KeyExpansion RoundKey Key =
     fold KeyExpansion_word [AES_Nk ..< AES_Nb * (AES_Nr + 1)]
       (fold (KeyExpansion_copy Key) [0 ..< AES_Nk] RoundKey)"

definition AES_init_ctx :: "AES_ctx \<Rightarrow> byte list \<Rightarrow> AES_ctx" where
  "AES_init_ctx ctx key = ctx\<lparr>ctx_RoundKey := AES_KeyExpansion (ctx_RoundKey ctx) key\<rparr>"

definition AES_ctx_set_iv :: "AES_ctx \<Rightarrow> byte list \<Rightarrow> byte list \<Rightarrow> AES_ctx" where
  "AES_ctx_set_iv ctx iv nounce =
     ctx\<lparr>ctx_Iv := map (\<lambda>i. iv ! i XOR nounce ! i) [0 ..< AES_BLOCKLEN]\<rparr>"

text \<open>
  The state \<^verbatim>\<open>AES_state_t\<close> is the 16-byte block seen as \<^verbatim>\<open>uint8_t[4][4]\<close>:
  \<^verbatim>\<open>(*state)[i][j]\<close> is byte \<open>4 * i + j\<close> of the block.
\<close>

definition AES_AddRoundKey :: "nat \<Rightarrow> byte list \<Rightarrow> byte list \<Rightarrow> byte list" where
  "AES_AddRoundKey round state RoundKey =
     fold (\<lambda>i st. fold (\<lambda>j st.
             st[i * 4 + j := st ! (i * 4 + j) XOR RoundKey ! (round * AES_Nb * 4 + i * AES_Nb + j)])
           [0 ..< 4] st) [0 ..< 4] state"

definition AES_SubBytes :: "byte list \<Rightarrow> byte list" where
  "AES_SubBytes state =
     fold (\<lambda>i st. fold (\<lambda>j st. st[j * 4 + i := AES_getSBoxValue (st ! (j * 4 + i))])
           [0 ..< 4] st) [0 ..< 4] state"

definition AES_ShiftRows :: "byte list \<Rightarrow> byte list" where
  "AES_ShiftRows state =
     (let temp = state ! 1;
          state = state[1 := state ! 5];
          state = state[5 := state ! 9];
          state = state[9 := state ! 13];
          state = state[13 := temp];
          temp = state ! 2;
          state = state[2 := state ! 10];
          state = state[10 := temp];
          temp = state ! 6;
          state = state[6 := state ! 14];
          state = state[14 := temp];
          temp = state ! 3;
          state = state[3 := state ! 15];
          state = state[15 := state ! 11];
          state = state[11 := state ! 7];
          state = state[7 := temp]
      in state)"

definition AES_xtime :: "byte \<Rightarrow> byte" where
  "AES_xtime x = push_bit 1 x XOR ((drop_bit 7 x AND 1) * 0x1b)"

definition MixColumns_row :: "nat \<Rightarrow> byte list \<Rightarrow> byte list" where
  "MixColumns_row i state =
     (let t = state ! (i * 4 + 0);
          Tmp = state ! (i * 4 + 0) XOR state ! (i * 4 + 1) XOR state ! (i * 4 + 2)
                  XOR state ! (i * 4 + 3);
          Tm = AES_xtime (state ! (i * 4 + 0) XOR state ! (i * 4 + 1));
          state = state[i * 4 + 0 := state ! (i * 4 + 0) XOR (Tm XOR Tmp)];
          Tm = AES_xtime (state ! (i * 4 + 1) XOR state ! (i * 4 + 2));
          state = state[i * 4 + 1 := state ! (i * 4 + 1) XOR (Tm XOR Tmp)];
          Tm = AES_xtime (state ! (i * 4 + 2) XOR state ! (i * 4 + 3));
          state = state[i * 4 + 2 := state ! (i * 4 + 2) XOR (Tm XOR Tmp)];
          Tm = AES_xtime (state ! (i * 4 + 3) XOR t);
          state = state[i * 4 + 3 := state ! (i * 4 + 3) XOR (Tm XOR Tmp)]
      in state)"

definition AES_MixColumns :: "byte list \<Rightarrow> byte list" where
  "AES_MixColumns state = fold MixColumns_row [0 ..< 4] state"

text \<open>
  The round loop of \<^verbatim>\<open>AES_Cipher\<close>, \<^verbatim>\<open>for (round = 1; ; ++round)\<close> with the
  \<^verbatim>\<open>break\<close> at \<^verbatim>\<open>round == AES_Nr\<close>; \<open>round\<close> is a \<^verbatim>\<open>uint8_t\<close>.
\<close>

function AES_Cipher_rounds :: "byte \<Rightarrow> byte list \<Rightarrow> byte list \<Rightarrow> byte list" where
  "AES_Cipher_rounds round state RoundKey =
     (let state = AES_ShiftRows (AES_SubBytes state)
      in if round = of_nat AES_Nr then state
         else AES_Cipher_rounds (round + 1)
                (AES_AddRoundKey (unat round) (AES_MixColumns state) RoundKey) RoundKey)"
  by pat_completeness auto
termination
proof (relation "measure (\<lambda>(round, state, RoundKey). unat (of_nat AES_Nr - round))")
  show "wf (measure (\<lambda>(round :: byte, state :: byte list, RoundKey :: byte list).
              unat (of_nat AES_Nr - round)))"
    by simp
next
  fix round :: byte and state RoundKey x :: "byte list"
  assume "round \<noteq> of_nat AES_Nr"
  then have nz: "(10 :: byte) - round \<noteq> 0" by auto
  have "(10 :: byte) - (round + 1) = (10 - round) - 1" by simp
  with nz have "unat ((10 :: byte) - (round + 1)) < unat ((10 :: byte) - round)"
    by (metis diff_less unat_gt_0 unat_minus_one zero_less_one)
  then show "((round + 1, AES_AddRoundKey (unat round) (AES_MixColumns x) RoundKey, RoundKey),
              (round, state, RoundKey))
             \<in> measure (\<lambda>(round, state, RoundKey). unat (of_nat AES_Nr - round))"
    by simp
qed

definition AES_Cipher :: "byte list \<Rightarrow> byte list \<Rightarrow> byte list" where
  "AES_Cipher state RoundKey =
     AES_AddRoundKey AES_Nr (AES_Cipher_rounds 1 (AES_AddRoundKey 0 state RoundKey) RoundKey)
       RoundKey"

subsection \<open>Counter mode\<close>

text \<open>
  The counter increment inlined in both CTR functions,
  \<^verbatim>\<open>for (bi = AES_BLOCKLEN - 1; bi >= 0; --bi)\<close>: the first argument is \<open>bi + 1\<close>.
\<close>

fun Iv_increment :: "nat \<Rightarrow> byte list \<Rightarrow> byte list" where
  "Iv_increment 0 Iv = Iv"
| "Iv_increment (Suc bi) Iv =
     (if Iv ! bi = 255 then Iv_increment bi (Iv[bi := 0]) else Iv[bi := Iv ! bi + 1])"

text \<open>
  The loop \<^verbatim>\<open>for (...; i < length; ++i, ++bi)\<close> that \<^verbatim>\<open>AES_CTR_xcrypt_buffer\<close> runs
  from \<open>i = 0\<close>, \<open>bi = AES_BLOCKLEN\<close>, and that \<^verbatim>\<open>AES_CTR_xcrypt_buffer_From\<close> runs, with
  the same body, from \<open>i = 0\<close> and the \<open>bi\<close>, counter and keystream block its seek loop left.
  \<open>buffer\<close> is the local keystream block.
\<close>

function xcrypt_loop ::
  "byte list \<Rightarrow> nat \<Rightarrow> nat \<Rightarrow> nat \<Rightarrow> byte list \<Rightarrow> byte list \<Rightarrow> byte list
     \<Rightarrow> byte list \<times> byte list" where
  "xcrypt_loop RoundKey len i bi Iv buffer buf =
     (if i < len
      then (let (Iv, buffer, bi) =
                  (if bi = AES_BLOCKLEN
                   then (Iv_increment AES_BLOCKLEN Iv, AES_Cipher Iv RoundKey, 0)
                   else (Iv, buffer, bi))
            in xcrypt_loop RoundKey len (i + 1) (bi + 1) Iv buffer
                 (buf[i := buf ! i XOR buffer ! bi]))
      else (Iv, buf))"
  by pat_completeness auto
termination
  by (relation "measure (\<lambda>(RoundKey, len, i, bi, Iv, buffer, buf). len - i)") auto

text \<open>
  The seek loop of \<^verbatim>\<open>AES_CTR_xcrypt_buffer_From\<close>: it advances the counter once per block
  of the \<open>from\<close> skipped bytes and computes the keystream block only where
  \<^verbatim>\<open>(i + AES_BLOCKLEN) >= from\<close>.
\<close>

function seek_loop ::
  "byte list \<Rightarrow> nat \<Rightarrow> nat \<Rightarrow> nat \<Rightarrow> byte list \<Rightarrow> byte list
     \<Rightarrow> nat \<times> byte list \<times> byte list" where
  "seek_loop RoundKey from i bi Iv buffer =
     (if i < from
      then (let (Iv, buffer, bi) =
                  (if bi = AES_BLOCKLEN
                   then (Iv_increment AES_BLOCKLEN Iv,
                         if i + AES_BLOCKLEN \<ge> from then AES_Cipher Iv RoundKey else buffer,
                         0)
                   else (Iv, buffer, bi))
            in seek_loop RoundKey from (i + 1) (bi + 1) Iv buffer)
      else (bi, Iv, buffer))"
  by pat_completeness auto
termination
  by (relation "measure (\<lambda>(RoundKey, from, i, bi, Iv, buffer). from - i)") auto

declare AES_Cipher_rounds.simps [simp del]
declare xcrypt_loop.simps [simp del]
declare seek_loop.simps [simp del]

text \<open>
  Both functions update the context's counter and the caller's buffer in place; the model
  returns the two. The first argument is the content of the uninitialised local
  \<^verbatim>\<open>buffer\<close> on entry.
\<close>

definition AES_CTR_xcrypt_buffer ::
  "byte list \<Rightarrow> AES_ctx \<Rightarrow> byte list \<Rightarrow> nat \<Rightarrow> AES_ctx \<times> byte list" where
  "AES_CTR_xcrypt_buffer buffer ctx buf len =
     (case xcrypt_loop (ctx_RoundKey ctx) len 0 AES_BLOCKLEN (ctx_Iv ctx) buffer buf of
        (Iv, buf) \<Rightarrow> (ctx\<lparr>ctx_Iv := Iv\<rparr>, buf))"

definition AES_CTR_xcrypt_buffer_From ::
  "byte list \<Rightarrow> AES_ctx \<Rightarrow> byte list \<Rightarrow> uint \<Rightarrow> nat \<Rightarrow> AES_ctx \<times> byte list" where
  "AES_CTR_xcrypt_buffer_From buffer ctx buf from len =
     (case seek_loop (ctx_RoundKey ctx) (unat from) 0 AES_BLOCKLEN (ctx_Iv ctx) buffer of
        (bi, Iv, buffer) \<Rightarrow>
          (case xcrypt_loop (ctx_RoundKey ctx) len 0 bi Iv buffer buf of
             (Iv, buf) \<Rightarrow> (ctx\<lparr>ctx_Iv := Iv\<rparr>, buf)))"


subsection \<open>The keystream\<close>

text \<open>
  Byte \<open>n\<close> of the keystream of a context: byte \<open>n mod 16\<close> of the encryption of the
  counter advanced \<open>n div 16\<close> times. \<open>positioned\<close> is the loop invariant of the two
  CTR loops at stream position \<open>pos\<close>.
\<close>

definition keystream :: "byte list \<Rightarrow> byte list \<Rightarrow> nat \<Rightarrow> byte" where
  "keystream RoundKey Iv n =
     AES_Cipher ((Iv_increment AES_BLOCKLEN ^^ (n div AES_BLOCKLEN)) Iv) RoundKey
       ! (n mod AES_BLOCKLEN)"

definition positioned :: "byte list \<Rightarrow> byte list \<Rightarrow> nat \<Rightarrow> nat \<Rightarrow> byte list \<Rightarrow> byte list \<Rightarrow> bool" where
  "positioned RoundKey Iv0 pos bi Iv buffer \<longleftrightarrow>
     (bi = AES_BLOCKLEN \<and> pos mod AES_BLOCKLEN = 0
        \<and> Iv = (Iv_increment AES_BLOCKLEN ^^ (pos div AES_BLOCKLEN)) Iv0)
     \<or> (0 < bi \<and> bi < AES_BLOCKLEN \<and> pos mod AES_BLOCKLEN = bi
        \<and> Iv = (Iv_increment AES_BLOCKLEN ^^ (pos div AES_BLOCKLEN + 1)) Iv0
        \<and> buffer = AES_Cipher ((Iv_increment AES_BLOCKLEN ^^ (pos div AES_BLOCKLEN)) Iv0) RoundKey)"

section \<open>Component configuration store\<close>

record CryptedComponentT =
  c_Name :: string
  c_Vendor :: "string option"
  c_Server :: "string option"
  c_UserAuth :: "string option"
  c_Key :: "byte list option"
  c_Iv :: "byte list option"
  c_Nonce :: "byte list option"

text \<open>
  \<^verbatim>\<open>EncryptObjSection\<close> dereferences the component's \<^verbatim>\<open>Key\<close>, \<^verbatim>\<open>Iv\<close> and \<^verbatim>\<open>Nonce\<close>
  pointers without a test: \<open>None\<close> is the dereference of a null pointer. Every byte of
  the local \<^verbatim>\<open>Ctx\<close> is assigned before it is read, so it starts as zeros here.
\<close>

definition EncryptObjSection ::
  "byte list \<Rightarrow> CryptedComponentT \<Rightarrow> byte list \<Rightarrow> uint \<Rightarrow> bfd_size_type \<Rightarrow> byte list option" where
  "EncryptObjSection buffer Comp InBuffer Pos Len =
     (case c_Key Comp of None \<Rightarrow> None | Some Key \<Rightarrow>
      (case c_Iv Comp of None \<Rightarrow> None | Some Iv \<Rightarrow>
       (case c_Nonce Comp of None \<Rightarrow> None | Some Nonce \<Rightarrow>
          (let Ctx = \<lparr>ctx_RoundKey = replicate AES_keyExpSize 0,
                      ctx_Iv = replicate AES_BLOCKLEN 0\<rparr>;
               Ctx = AES_init_ctx Ctx Key;
               Ctx = AES_ctx_set_iv Ctx Iv Nonce
           in Some (snd (AES_CTR_xcrypt_buffer_From buffer Ctx InBuffer Pos (unat Len)))))))"

text \<open>
  The component list \<^verbatim>\<open>EncryptInfo.Components\<close> is a list in the order of its \<^verbatim>\<open>Next\<close>
  pointers; a \<^verbatim>\<open>CryptedComponentT *\<close> is a position in that list, \<open>None\<close> the null
  pointer.
\<close>

record EncryptInfoT =
  Mode :: int
  Verbose :: int
  Components :: "CryptedComponentT list"
  OutComponent :: "nat option"

fun PushComponent_find :: "string \<Rightarrow> CryptedComponentT list \<Rightarrow> bool" where
  "PushComponent_find Name [] = False"
| "PushComponent_find Name (Pt # rest) =
     (if Name = c_Name Pt then True else PushComponent_find Name rest)"

text \<open>
  \<^verbatim>\<open>PushComponent\<close> returns the new component's pointer and the list, or the null pointer
  (and the list as it was) when the name is already declared. The source leaves
  \<^verbatim>\<open>UserAuth\<close> of the new record unassigned.
\<close>

definition PushComponent ::
  "string \<Rightarrow> CryptedComponentT list \<Rightarrow> nat option \<times> CryptedComponentT list" where
  "PushComponent Name Head =
     (if PushComponent_find Name Head then (None, Head)
      else (Some (length Head),
            Head @ [\<lparr>c_Name = Name, c_Vendor = None, c_Server = None, c_UserAuth = None,
                      c_Key = None, c_Iv = None, c_Nonce = None\<rparr>]))"

fun ComponentLookUp_loop :: "string \<Rightarrow> nat \<Rightarrow> CryptedComponentT list \<Rightarrow> nat option" where
  "ComponentLookUp_loop Name k [] = None"
| "ComponentLookUp_loop Name k (Pt # rest) =
     (let Ln = length Name; Lc = length (c_Name Pt)
      in if Ln > Lc
         then (if drop (Ln - Lc) Name = c_Name Pt
                  \<and> (Name ! (Ln - Lc - 1) = CHR ''/'' \<or> Name ! (Ln - Lc - 1) = CHR 0x5C)
               then Some k else ComponentLookUp_loop Name (k + 1) rest)
         else if Ln = Lc \<and> Name = c_Name Pt then Some k
         else ComponentLookUp_loop Name (k + 1) rest)"

definition ComponentLookUp :: "string \<Rightarrow> CryptedComponentT list \<Rightarrow> nat option" where
  "ComponentLookUp Name HeadComp = ComponentLookUp_loop Name 0 HeadComp"

text \<open>
  The loop of \<^verbatim>\<open>SetOutComponentIV\<close> over the components, \<open>k\<close> the position of \<open>Pt\<close>.
  \<open>None\<close> is the \<^verbatim>\<open>return 4\<close> from inside the loop; otherwise the loop ends with
  \<^verbatim>\<open>EncryptedIn\<close> and \<^verbatim>\<open>IvOut\<close>.
\<close>

fun SetOutComponentIV_loop ::
  "nat option \<Rightarrow> nat \<Rightarrow> CryptedComponentT list \<Rightarrow> int \<Rightarrow> byte list
     \<Rightarrow> (int \<times> byte list) option" where
  "SetOutComponentIV_loop OutComp k [] EncryptedIn IvOut = Some (EncryptedIn, IvOut)"
| "SetOutComponentIV_loop OutComp k (Pt # rest) EncryptedIn IvOut =
     (if Some k = OutComp then SetOutComponentIV_loop OutComp (k + 1) rest EncryptedIn IvOut
      else (case c_Iv Pt of
              None \<Rightarrow> None
            | Some PtIv \<Rightarrow>
                SetOutComponentIV_loop OutComp (k + 1) rest 1
                  (if EncryptedIn = 0 then map (\<lambda>i. PtIv ! i) [0 ..< AES_KEY_LEN]
                   else map (\<lambda>i. IvOut ! i XOR PtIv ! i) [0 ..< AES_KEY_LEN])))"

text \<open>
  \<^verbatim>\<open>SetOutComponentIV\<close> returns its code and the registry. Its first argument is what the
  local array \<^verbatim>\<open>IvOut\<close>, which the source does not initialise, holds on entry.
\<close>

definition SetOutComponentIV :: "byte list \<Rightarrow> string \<Rightarrow> EncryptInfoT \<Rightarrow> int \<times> EncryptInfoT" where
  "SetOutComponentIV IvOut Name EncryptInfo =
     (if Components EncryptInfo = [] then (0, EncryptInfo)
      else
        (let OutComp = ComponentLookUp Name (Components EncryptInfo)
         in case SetOutComponentIV_loop OutComp 0 (Components EncryptInfo) 0 IvOut of
              None \<Rightarrow> (4, EncryptInfo)
            | Some (EncryptedIn, IvOut) \<Rightarrow>
                (case OutComp of
                   Some k \<Rightarrow>
                     (1, EncryptInfo\<lparr>Components := (Components EncryptInfo)
                           [k := (Components EncryptInfo ! k)
                                   \<lparr>c_Iv := Some (map (\<lambda>i. IvOut ! i) [0 ..< AES_KEY_LEN])\<rparr>]\<rparr>)
                 | None \<Rightarrow> if EncryptedIn \<noteq> 0 then (2, EncryptInfo) else (3, EncryptInfo))))"

text \<open>
  \<^verbatim>\<open>ComponentNonceUpdate\<close> is the one place that gives a component its nonce: the
  parser leaves \<^verbatim>\<open>Nonce\<close> null in every component it creates.
\<close>

definition ComponentNonceUpdate :: "string \<Rightarrow> byte list \<Rightarrow> EncryptInfoT \<Rightarrow> int \<times> EncryptInfoT" where
  "ComponentNonceUpdate Name Nonce EncryptInfo =
     (case ComponentLookUp Name (Components EncryptInfo) of
        None \<Rightarrow> (0, EncryptInfo)
      | Some k \<Rightarrow>
          (1, EncryptInfo\<lparr>Components := (Components EncryptInfo)
                [k := (Components EncryptInfo ! k)
                        \<lparr>c_Nonce := Some (map (\<lambda>i. Nonce ! i) [0 ..< AES_BLOCKLEN])\<rparr>]\<rparr>))"

definition ComponentMustBeEncrypted :: "string \<Rightarrow> EncryptInfoT \<Rightarrow> bool" where
  "ComponentMustBeEncrypted Name EncryptInfo =
     (ComponentLookUp Name (Components EncryptInfo) \<noteq> None)"

section \<open>Component configuration parser\<close>

datatype CompErrorT =
    ERR_NOERR_EOF | ERR_NOERR | ERR_UNEXPECTED_EOF | ERR_EXPECT_COMP | ERR_EXPECT_SET
  | ERR_EXPECT_STRING | ERR_EXPECT_VENDOR | ERR_EXPECT_SERVER | ERR_EXPECT_KEY
  | ERR_EXPECT_NAME | ERR_BADKEYLEN | ERR_KEYNONHEX | ERR_EXPECT_USER | ERR_EXPECT_SECTION
  | ERR_EXPECT_COMP_OR_IV | ERR_WRONG_COMP

datatype TokenT =
    T_STRING | T_NAME | T_EOFT | T_UNKNOWN | T_UNTERM | T_SET | T_SEMI | T_COMPONENT
  | T_SERVER | T_VENDOR | T_KEY | T_USER | T_IV | T_VERBOSE

text \<open>
  The \<^verbatim>\<open>ctype.h\<close> functions in the C locale. The input file \<^verbatim>\<open>Fi\<close> is the list of the
  characters still to read: \<^verbatim>\<open>fgetc\<close> takes the head (\<^verbatim>\<open>EOF\<close> on the empty list) and
  \<^verbatim>\<open>ungetc\<close> puts a character back in front.
\<close>

definition isalnum :: "char \<Rightarrow> bool" where
  "isalnum c = (let n = (of_char c :: nat)
                in (48 \<le> n \<and> n \<le> 57) \<or> (65 \<le> n \<and> n \<le> 90) \<or> (97 \<le> n \<and> n \<le> 122))"

definition toupper :: "char \<Rightarrow> char" where
  "toupper c = (let n = (of_char c :: nat) in if 97 \<le> n \<and> n \<le> 122 then char_of (n - 32) else c)"

definition tolower :: "char \<Rightarrow> char" where
  "tolower c = (let n = (of_char c :: nat) in if 65 \<le> n \<and> n \<le> 90 then char_of (n + 32) else c)"

text \<open>
  The token buffer \<^verbatim>\<open>Str\<close> is a character array filled from the file, which may hold
  NUL characters. What \<^verbatim>\<open>strlen\<close>, \<^verbatim>\<open>strcmp\<close>, \<^verbatim>\<open>strdup\<close> and a \<^verbatim>\<open>while (c=Str[l])\<close> loop
  see of it is the C string at its start: the characters before the first NUL.
\<close>

definition c_string :: "string \<Rightarrow> string" where
  "c_string Str = takeWhile (\<lambda>c. c \<noteq> CHR 0x00) Str"

definition strlen :: "string \<Rightarrow> nat" where
  "strlen Str = length (c_string Str)"

definition strdup :: "string \<Rightarrow> string" where
  "strdup Str = c_string Str"

definition NameToToken :: "string \<Rightarrow> TokenT" where
  "NameToToken Str =
     (let Buf = map toupper (c_string Str)
      in if Buf = ''COMPONENT'' then T_COMPONENT
         else if Buf = ''VENDOR'' then T_VENDOR
         else if Buf = ''SERVER'' then T_SERVER
         else if Buf = ''USER'' then T_USER
         else if Buf = ''KEY'' then T_KEY
         else if Buf = ''IV'' then T_IV
         else if Buf = ''VERBOSE'' then T_VERBOSE
         else T_NAME)"

text \<open>
  The body of a \<^verbatim>\<open>/* ... */\<close> comment, read after the opening: the rest of the file after
  the closing \<^verbatim>\<open>*/\<close>, or \<open>None\<close> when the file ends first (\<^verbatim>\<open>T_UNTERM\<close>). A character
  after a \<^verbatim>\<open>*\<close> that is not \<^verbatim>\<open>/\<close> is put back and read again.
\<close>

fun skip_block_comment :: "char list \<Rightarrow> char list option" where
  "skip_block_comment [] = None"
| "skip_block_comment [c] = None"
| "skip_block_comment (c # d # Fi) =
     (if c = CHR ''*'' then (if d = CHR ''/'' then Some Fi else skip_block_comment (d # Fi))
      else skip_block_comment (d # Fi))"

text \<open>The rest of a \<^verbatim>\<open>//\<close> comment: the file after the newline, or \<open>None\<close> at end of file.\<close>

fun skip_line_comment :: "char list \<Rightarrow> char list option" where
  "skip_line_comment [] = None"
| "skip_line_comment (c # Fi) = (if c = CHR 0x0A then Some Fi else skip_line_comment Fi)"

text \<open>
  The blank-skipping loop at the head of \<^verbatim>\<open>GetNextToken\<close>. \<open>Unterminated\<close> is its
  \<^verbatim>\<open>return T_UNTERM\<close>; \<open>Skipped c Fi LineNo\<close> is its exit with the last character read
  \<open>c\<close> (\<open>None\<close> for \<^verbatim>\<open>EOF\<close>). After a \<^verbatim>\<open>/\<close> that opens no comment the character read next
  is put back, and stays the current character \<open>c\<close>.
\<close>

datatype skipped = Unterminated | Skipped "char option" "char list" nat

function skip_blanks :: "char list \<Rightarrow> nat \<Rightarrow> skipped" where
  "skip_blanks [] LineNo = Skipped None [] LineNo"
| "skip_blanks (c # Fi) LineNo =
     (if c = CHR ''/''
      then (case Fi of
              [] \<Rightarrow> Skipped None [] LineNo
            | c2 # Fi2 \<Rightarrow>
                if c2 \<noteq> CHR 0x00 \<and> c2 = CHR ''*''
                then (case skip_block_comment Fi2 of
                        None \<Rightarrow> Unterminated
                      | Some Fi3 \<Rightarrow> skip_blanks Fi3 LineNo)
                else if c2 = CHR ''/''
                then (case skip_line_comment Fi2 of
                        None \<Rightarrow> Unterminated
                      | Some Fi3 \<Rightarrow> skip_blanks Fi3 LineNo)
                else Skipped (Some c2) (c2 # Fi2) LineNo)
      else if \<not> (c = CHR '' '' \<or> c = CHR 0x09 \<or> c = CHR 0x0A \<or> c = CHR 0x0D)
      then Skipped (Some c) Fi LineNo
      else if c = CHR 0x0A then skip_blanks Fi (LineNo + 1)
      else skip_blanks Fi LineNo)"
  by pat_completeness auto
text \<open>
  The body of a string token after the opening quote: the string and the rest of the file
  after the closing quote, or \<open>None\<close> when the file ends first. A backslash takes the next
  character as it is.
\<close>

fun read_string :: "char list \<Rightarrow> string \<Rightarrow> (string \<times> char list) option" where
  "read_string [] Str = None"
| "read_string (c # Fi) Str =
     (if c = CHR 0x22 then Some (Str, Fi)
      else if c = CHR 0x5C
      then (case Fi of [] \<Rightarrow> None | d # Fi2 \<Rightarrow> read_string Fi2 (Str @ [d]))
      else read_string Fi (Str @ [c]))"

record lexer =
  l_Fi :: "char list"
  l_LineNo :: nat
  l_TokLine :: nat

text \<open>
  \<^verbatim>\<open>GetNextToken\<close> returns the token, the content of \<^verbatim>\<open>Str\<close> (left as it was by a token
  without content) and the lexer state.
\<close>

definition GetNextToken :: "lexer \<Rightarrow> string \<Rightarrow> TokenT \<times> string \<times> lexer" where
  "GetNextToken lx Str =
     (case skip_blanks (l_Fi lx) (l_LineNo lx) of
        Unterminated \<Rightarrow> (T_UNTERM, Str, lx\<lparr>l_Fi := []\<rparr>)
      | Skipped c Fi' LineNo' \<Rightarrow>
          (let lx = lx\<lparr>l_Fi := Fi', l_LineNo := LineNo', l_TokLine := LineNo'\<rparr>
           in case c of
                None \<Rightarrow> (T_EOFT, Str, lx)
              | Some c \<Rightarrow>
                  if c = CHR 0x22
                  then (case read_string Fi' [] of
                          None \<Rightarrow> (T_UNTERM, Str, lx\<lparr>l_Fi := []\<rparr>)
                        | Some (Str', Fi'') \<Rightarrow> (T_STRING, Str', lx\<lparr>l_Fi := Fi''\<rparr>))
                  else if isalnum c
                  then (T_NAME, c # takeWhile isalnum Fi', lx\<lparr>l_Fi := dropWhile isalnum Fi'\<rparr>)
                  else if c = CHR ''='' \<or> c = CHR '':'' then (T_SET, Str, lx)
                  else if c = CHR '';'' then (T_SEMI, Str, lx)
                  else (T_UNKNOWN, [c], lx)))"

record parse_state =
  p_lex :: lexer
  p_Section :: TokenT
  p_Str :: string
  p_Verbose :: int

text \<open>
  \<^verbatim>\<open>OneSection\<close> reads \<^verbatim>\<open>keyword = "string"\<close>: it returns its error code and the state,
  with the keyword in \<open>p_Section\<close> and the string in \<open>p_Str\<close>. \<open>p_Verbose\<close> is
  \<^verbatim>\<open>EncryptInfo.Verbose\<close>.
\<close>

definition is_section_token :: "TokenT \<Rightarrow> bool" where
  "is_section_token Tok =
     (Tok = T_COMPONENT \<or> Tok = T_VENDOR \<or> Tok = T_SERVER \<or> Tok = T_USER \<or> Tok = T_KEY
      \<or> Tok = T_IV)"

definition OneSection_value :: "parse_state \<Rightarrow> CompErrorT \<times> parse_state" where
  "OneSection_value ps =
     (case GetNextToken (p_lex ps) (p_Str ps) of (Tok, Content, lx) \<Rightarrow>
        let ps = ps\<lparr>p_lex := lx, p_Str := Content\<rparr>
        in if Tok = T_EOFT then (ERR_UNEXPECTED_EOF, ps)
           else if Tok \<noteq> T_SET then (ERR_EXPECT_SET, ps)
           else (case GetNextToken (p_lex ps) (p_Str ps) of (Tok, Content, lx) \<Rightarrow>
                   let ps = ps\<lparr>p_lex := lx, p_Str := Content\<rparr>
                   in if Tok = T_EOFT then (ERR_UNEXPECTED_EOF, ps)
                      else if Tok \<noteq> T_STRING then (ERR_EXPECT_STRING, ps)
                      else (ERR_NOERR, ps)))"

definition OneSection_keyword :: "TokenT \<Rightarrow> parse_state \<Rightarrow> CompErrorT \<times> parse_state" where
  "OneSection_keyword Tok ps =
     (if \<not> is_section_token Tok then (ERR_EXPECT_SECTION, ps)
      else OneSection_value (ps\<lparr>p_Section := Tok\<rparr>))"

definition OneSection :: "parse_state \<Rightarrow> CompErrorT \<times> parse_state" where
  "OneSection ps =
     (case GetNextToken (p_lex ps) (p_Str ps) of (Tok, Content, lx) \<Rightarrow>
        let ps = ps\<lparr>p_lex := lx, p_Str := Content\<rparr>
        in if Tok = T_EOFT then (ERR_NOERR_EOF, ps)
           else
             let Tok = (if Tok = T_NAME then NameToToken Content else Tok)
             in if Tok = T_VERBOSE
                then (let ps = ps\<lparr>p_Verbose := 1\<rparr>
                      in case GetNextToken (p_lex ps) (p_Str ps) of (Tok, Content, lx) \<Rightarrow>
                           let ps = ps\<lparr>p_lex := lx, p_Str := Content\<rparr>
                           in if Tok = T_EOFT then (ERR_NOERR_EOF, ps)
                              else OneSection_keyword
                                     (if Tok = T_NAME then NameToToken Content else Tok) ps)
                else OneSection_keyword Tok ps)"

text \<open>
  \<^verbatim>\<open>ToHex\<close> reads two hexadecimal digits, \<open>-1\<close> when one is not a digit; \<open>hex_digit\<close> is the
  range test the source writes out for each of the two.
\<close>

definition hex_digit :: "char \<Rightarrow> int" where
  "hex_digit S0 =
     (if of_char CHR ''0'' \<le> (of_char S0 :: nat) \<and> (of_char S0 :: nat) \<le> of_char CHR ''9''
      then int (of_char S0) - int (of_char CHR ''0'')
      else if of_char CHR ''a'' \<le> (of_char S0 :: nat) \<and> (of_char S0 :: nat) \<le> of_char CHR ''f''
      then int (of_char S0) - int (of_char CHR ''a'') + 10
      else - 1)"

definition ToHex :: "string \<Rightarrow> int" where
  "ToHex S =
     (let R0 = hex_digit (tolower (S ! 0)); R1 = hex_digit (tolower (S ! 1))
      in if R0 = - 1 then - 1 else if R1 = - 1 then - 1 else push_bit 4 R0 OR R1)"

function CheckKey_loop :: "string \<Rightarrow> nat \<Rightarrow> nat \<Rightarrow> byte list \<Rightarrow> CompErrorT \<times> byte list" where
  "CheckKey_loop Str Len i Key =
     (if i < Len
      then (let R = ToHex (drop (2 * i) Str)
            in if R = - 1 then (ERR_KEYNONHEX, Key)
               else CheckKey_loop Str Len (i + 1) (Key[i := of_int R]))
      else (ERR_NOERR, Key))"
  by pat_completeness auto
termination
  by (relation "measure (\<lambda>(Str, Len, i, Key). Len - i)") auto

declare CheckKey_loop.simps [simp del]

text \<open>
  \<^verbatim>\<open>CheckKey\<close> fills the \<open>Len\<close> bytes of \<^verbatim>\<open>Key\<close>, which the caller has just allocated; all
  of them are assigned when it returns \<^verbatim>\<open>ERR_NOERR\<close>.
\<close>

definition CheckKey :: "string \<Rightarrow> nat \<Rightarrow> CompErrorT \<times> byte list" where
  "CheckKey Str Len =
     (let L = strlen Str
      in if L \<noteq> Len * 2 then (ERR_BADKEYLEN, replicate Len 0)
         else CheckKey_loop Str Len 0 (replicate Len 0))"

datatype 'a outcome = Returns 'a | NullDereference

datatype loop_step =
    Return "CompErrorT outcome" "CryptedComponentT list" parse_state
  | Continue parse_state "nat option" "CryptedComponentT list"

text \<open>
  One pass of the \<^verbatim>\<open>while (1)\<close> of \<^verbatim>\<open>ProcessComponents\<close>: the \<^verbatim>\<open>Vendor\<close>, \<^verbatim>\<open>Server\<close>,
  \<^verbatim>\<open>User\<close> and \<^verbatim>\<open>Key\<close> entries of the component \<^verbatim>\<open>*Comp\<close>, then either the next
  \<^verbatim>\<open>Component\<close> or an \<^verbatim>\<open>Iv\<close> and the next \<^verbatim>\<open>Component\<close>. It ends in a \<^verbatim>\<open>return\<close> or goes
  round the loop again. \<^verbatim>\<open>(*Comp)->Vendor = ...\<close> on a null \<^verbatim>\<open>*Comp\<close> is
  \<open>NullDereference\<close>.
\<close>

definition ProcessComponents_record ::
  "parse_state \<Rightarrow> nat option \<Rightarrow> CryptedComponentT list \<Rightarrow> loop_step" where
  "ProcessComponents_record ps Comp Head =
     (case OneSection ps of (Err, ps) \<Rightarrow>
      if Err \<noteq> ERR_NOERR then Return (Returns Err) Head ps
      else if p_Section ps \<noteq> T_VENDOR then Return (Returns ERR_EXPECT_VENDOR) Head ps
      else (case Comp of None \<Rightarrow> Return NullDereference Head ps | Some k \<Rightarrow>
      let Head = Head[k := (Head ! k)\<lparr>c_Vendor := Some (strdup (p_Str ps))\<rparr>] in
      case OneSection ps of (Err, ps) \<Rightarrow>
      if Err \<noteq> ERR_NOERR then Return (Returns Err) Head ps
      else if p_Section ps \<noteq> T_SERVER then Return (Returns ERR_EXPECT_SERVER) Head ps
      else
      let Head = Head[k := (Head ! k)\<lparr>c_Server := Some (strdup (p_Str ps))\<rparr>] in
      case OneSection ps of (Err, ps) \<Rightarrow>
      if Err \<noteq> ERR_NOERR then Return (Returns Err) Head ps
      else if p_Section ps \<noteq> T_USER then Return (Returns ERR_EXPECT_USER) Head ps
      else
      let Head = Head[k := (Head ! k)\<lparr>c_UserAuth := Some (strdup (p_Str ps))\<rparr>] in
      case OneSection ps of (Err, ps) \<Rightarrow>
      if Err \<noteq> ERR_NOERR then Return (Returns Err) Head ps
      else if p_Section ps \<noteq> T_KEY then Return (Returns ERR_EXPECT_KEY) Head ps
      else
      case CheckKey (p_Str ps) AES_KEY_LEN of (Status, Key) \<Rightarrow>
      if Status \<noteq> ERR_NOERR then Return (Returns Status) Head ps
      else
      let Head = Head[k := (Head ! k)\<lparr>c_Key := Some Key, c_Iv := None, c_Nonce := None\<rparr>] in
      case OneSection ps of (Err, ps) \<Rightarrow>
      if Err \<noteq> ERR_NOERR then Return (Returns Err) Head ps
      else if p_Section ps = T_COMPONENT
      then (case PushComponent (c_string (p_Str ps)) Head of (Comp, Head) \<Rightarrow> Continue ps Comp Head)
      else if p_Section ps = T_IV
      then (case CheckKey (p_Str ps) AES_KEY_LEN of (Status, Iv) \<Rightarrow>
            if Status \<noteq> ERR_NOERR then Return (Returns Status) Head ps
            else
            let Head = Head[k := (Head ! k)\<lparr>c_Iv := Some Iv\<rparr>] in
            case OneSection ps of (Err, ps) \<Rightarrow>
            if Err \<noteq> ERR_NOERR then Return (Returns Err) Head ps
            else if p_Section ps \<noteq> T_COMPONENT then Return (Returns ERR_EXPECT_COMP) Head ps
            else (case PushComponent (c_string (p_Str ps)) Head of (Comp, Head) \<Rightarrow>
                  if Comp = None then Return (Returns ERR_WRONG_COMP) Head ps
                  else Continue ps Comp Head))
      else Return (Returns ERR_EXPECT_COMP_OR_IV) Head ps))"

function ProcessComponents_loop ::
  "parse_state \<Rightarrow> nat option \<Rightarrow> CryptedComponentT list
     \<Rightarrow> CompErrorT outcome \<times> CryptedComponentT list \<times> parse_state" where
  "ProcessComponents_loop ps Comp Head =
     (case ProcessComponents_record ps Comp Head of
        Return r Head ps \<Rightarrow> (r, Head, ps)
      | Continue ps Comp Head \<Rightarrow> ProcessComponents_loop ps Comp Head)"
  by pat_completeness auto
definition ProcessComponents ::
  "parse_state \<Rightarrow> CryptedComponentT list
     \<Rightarrow> CompErrorT outcome \<times> CryptedComponentT list \<times> parse_state" where
  "ProcessComponents ps Head =
     (case OneSection ps of (Err, ps) \<Rightarrow>
        if Err \<noteq> ERR_NOERR then (Returns Err, Head, ps)
        else if p_Section ps \<noteq> T_COMPONENT then (Returns ERR_EXPECT_COMP, Head, ps)
        else (case PushComponent (c_string (p_Str ps)) Head of (Comp, Head) \<Rightarrow>
                if Comp = None then (Returns ERR_WRONG_COMP, Head, ps)
                else ProcessComponents_loop ps Comp Head))"

text \<open>
  \<^verbatim>\<open>DumpComponents\<close> prints every component of the list. It reads the 16 bytes of
  \<^verbatim>\<open>Pt->Key\<close> without a test, and tests \<^verbatim>\<open>Pt->Iv\<close> and \<^verbatim>\<open>Pt->Nonce\<close> before it reads
  them; a component whose \<^verbatim>\<open>Key\<close> is null is the dereference of a null pointer. The
  \<^verbatim>\<open>%s\<close> conversions before it print \<^verbatim>\<open>Vendor\<close>, \<^verbatim>\<open>Server\<close> and \<^verbatim>\<open>UserAuth\<close>, which the
  parser assigns before \<^verbatim>\<open>Key\<close>: a component with a key has all three.
\<close>

fun DumpComponents :: "CryptedComponentT list \<Rightarrow> unit outcome" where
  "DumpComponents [] = Returns ()"
| "DumpComponents (Pt # rest) =
     (case c_Key Pt of None \<Rightarrow> NullDereference | Some Key \<Rightarrow> DumpComponents rest)"

text \<open>
  \<^verbatim>\<open>ProcessEncryptionInfos\<close>: \<open>file\<close> is what \<^verbatim>\<open>fopen\<close> gives for \<^verbatim>\<open>InfoName\<close> (\<open>None\<close>
  when it fails). It returns 1 with the parsed list installed, or 0 after printing
  \<^verbatim>\<open>Aborting.\<close> with the error; \<^verbatim>\<open>EncryptInfo.Verbose\<close> keeps what the parser set. After
  a parse without error it calls \<^verbatim>\<open>DumpComponents\<close> on the parsed list when
  \<^verbatim>\<open>EncryptInfo.Verbose\<close> is set, before it installs the list.
\<close>

definition ProcessEncryptionInfos ::
  "char list option \<Rightarrow> int \<Rightarrow> EncryptInfoT \<Rightarrow> int outcome \<times> EncryptInfoT" where
  "ProcessEncryptionInfos file Mode' EncryptInfo =
     (if Components EncryptInfo \<noteq> [] then (Returns 1, EncryptInfo)
      else case file of
        None \<Rightarrow> (Returns 0, EncryptInfo)
      | Some chars \<Rightarrow>
          (case ProcessComponents
                  \<lparr>p_lex = \<lparr>l_Fi = chars, l_LineNo = 1, l_TokLine = 1\<rparr>, p_Section = T_EOFT,
                   p_Str = [], p_Verbose = Verbose EncryptInfo\<rparr> []
           of (C, HeadComp, ps) \<Rightarrow>
             (case C of
                NullDereference \<Rightarrow> (NullDereference, EncryptInfo\<lparr>Verbose := p_Verbose ps\<rparr>)
              | Returns C \<Rightarrow>
                  if C = ERR_NOERR \<or> C = ERR_NOERR_EOF
                  then (case (if p_Verbose ps \<noteq> 0 then DumpComponents HeadComp
                              else Returns ()) of
                          NullDereference \<Rightarrow>
                            (NullDereference, EncryptInfo\<lparr>Verbose := p_Verbose ps\<rparr>)
                        | Returns u \<Rightarrow>
                            (Returns 1,
                             EncryptInfo\<lparr>Verbose := p_Verbose ps, Components := HeadComp\<rparr>))
                  else (Returns 0, EncryptInfo\<lparr>Verbose := p_Verbose ps\<rparr>))))"

section \<open>Section registry\<close>

abbreviation (input) SEC_CODE :: flagword where "SEC_CODE \<equiv> 0x010"
abbreviation (input) SEC_CONSTRUCTOR :: flagword where "SEC_CONSTRUCTOR \<equiv> 0x080"
abbreviation (input) SEC_HAS_CONTENTS :: flagword where "SEC_HAS_CONTENTS \<equiv> 0x100"
abbreviation (input) SEC_IN_MEMORY :: flagword where "SEC_IN_MEMORY \<equiv> 0x4000"

text \<open>
  The fields of \<^verbatim>\<open>asection\<close> that the registry and the contents functions read or write.
  \<open>s_name = None\<close> is the null name of an entry that \<^verbatim>\<open>bfd_section_hash_newfunc\<close> has
  just zeroed; \<open>s_contents\<close> is the address of the in-memory copy, \<open>None\<close> when null.
\<close>

record asection =
  s_name :: "string option"
  s_id :: uint
  s_index :: uint
  s_flags :: flagword
  s_size :: bfd_size_type
  s_rawsize :: bfd_size_type
  s_contents :: "nat option"

definition zeroed_section :: asection where
  "zeroed_section = \<lparr>s_name = None, s_id = 0, s_index = 0, s_flags = 0, s_size = 0,
                       s_rawsize = 0, s_contents = None\<rparr>"

record section_hash_entry =
  root_string :: string
  root_hash :: nat
  sh_section :: asection

text \<open>
  Modelled from the spec: the name-keyed hash table of \<^verbatim>\<open>hash.c\<close> (\<^verbatim>\<open>bfd_hash_lookup\<close>,
  \<^verbatim>\<open>bfd_hash_newfunc\<close> and the hash function), which is not in the sources. Each bucket is
  the chain of its entries in \<^verbatim>\<open>next\<close> order; a name is looked up in the bucket of its
  hash and found at the first entry of the chain with that hash and string; with
  \<^verbatim>\<open>create\<close>, a name that is not found gets a new entry, its section zeroed, at the head
  of the bucket. The hash function is the table's \<open>ht_hash\<close>. Growing the table and
  allocation failure are not modelled. An entry pointer is the pair of its bucket and its
  position in the chain.
\<close>

record bfd_hash_table =
  ht_hash :: "string \<Rightarrow> nat"
  ht_size :: nat
  ht_table :: "nat \<Rightarrow> section_hash_entry list"
  ht_count :: nat

fun chain_find :: "nat \<Rightarrow> string \<Rightarrow> nat \<Rightarrow> section_hash_entry list \<Rightarrow> nat option" where
  "chain_find hash string i [] = None"
| "chain_find hash string i (hashp # rest) =
     (if root_hash hashp = hash \<and> root_string hashp = string then Some i
      else chain_find hash string (i + 1) rest)"

definition bfd_hash_lookup ::
  "bfd_hash_table \<Rightarrow> string \<Rightarrow> bool \<Rightarrow> (nat \<times> nat) option \<times> bfd_hash_table" where
  "bfd_hash_lookup table string create =
     (let hash = ht_hash table string; index = hash mod ht_size table
      in case chain_find hash string 0 (ht_table table index) of
           Some i \<Rightarrow> (Some (index, i), table)
         | None \<Rightarrow>
             if \<not> create then (None, table)
             else (Some (index, 0),
                   table\<lparr>ht_table := (ht_table table)
                            (index := \<lparr>root_string = string, root_hash = hash,
                                        sh_section = zeroed_section\<rparr> # ht_table table index),
                          ht_count := ht_count table + 1\<rparr>))"

datatype bfd_error =
    bfd_error_no_error | bfd_error_invalid_operation | bfd_error_no_memory
  | bfd_error_bad_value | bfd_error_no_contents

datatype bfd_direction = no_direction | read_direction | write_direction | both_direction

text \<open>
  The fields of \<^verbatim>\<open>bfd\<close> in use. The section list is the list of the sections' ids in
  \<^verbatim>\<open>next\<close> order (its last element is \<^verbatim>\<open>section_last\<close>). The three hooks are the
  entries \<^verbatim>\<open>_new_section_hook\<close>, \<^verbatim>\<open>_bfd_set_section_contents\<close> and
  \<^verbatim>\<open>_bfd_get_section_contents\<close> of the target vector that \<^verbatim>\<open>BFD_SEND\<close> calls: the writer
  is given the \<open>count\<close> bytes at the pointer it is passed and returns its status, the
  reader is given the bytes the destination holds and returns its status and the bytes it
  leaves there. \<open>BFD_ENCRYPTED\<close>, a flag bit of \<^verbatim>\<open>bfd.h\<close> that the sources do not define,
  is a parameter of the functions that test it.
\<close>

record bfd =
  filename :: string
  bfd_flags :: flagword
  direction :: bfd_direction
  output_has_begun :: bool
  sections :: "uint list"
  section_count :: uint
  section_htab :: bfd_hash_table
  new_section_hook :: "asection \<Rightarrow> bool"
  set_section_contents_hook :: "asection \<Rightarrow> byte list \<Rightarrow> file_ptr \<Rightarrow> bfd_size_type \<Rightarrow> bool"
  get_section_contents_hook ::
    "asection \<Rightarrow> byte list \<Rightarrow> file_ptr \<Rightarrow> bfd_size_type \<Rightarrow> bool \<times> byte list"

text \<open>The process-wide \<^verbatim>\<open>section_id\<close> counter and the error \<^verbatim>\<open>bfd_set_error\<close> records.\<close>

record bfd_globals =
  section_id :: uint
  the_bfd_error :: bfd_error

definition entry_at :: "bfd_hash_table \<Rightarrow> nat \<times> nat \<Rightarrow> section_hash_entry" where
  "entry_at table sh = ht_table table (fst sh) ! snd sh"

definition set_section_at :: "bfd_hash_table \<Rightarrow> nat \<times> nat \<Rightarrow> asection \<Rightarrow> bfd_hash_table" where
  "set_section_at table sh sect =
     table\<lparr>ht_table := (ht_table table)
              (fst sh := (ht_table table (fst sh))
                           [snd sh := (ht_table table (fst sh) ! snd sh)\<lparr>sh_section := sect\<rparr>])\<rparr>"

definition section_hash_lookup :: "bfd_hash_table \<Rightarrow> string \<Rightarrow> bool \<Rightarrow> (nat \<times> nat) option \<times> bfd_hash_table" where
  "section_hash_lookup table string create = bfd_hash_lookup table string create"

text \<open>
  \<^verbatim>\<open>bfd_section_init\<close> on the section of entry \<open>sh\<close>, whose name (and flags) the caller
  has set in \<open>newsect\<close>: the section is stored in its entry with its id and index, and, when
  the hook accepts it, the counters advance and the section is appended to the list. It
  returns the section, or \<open>None\<close> for the null pointer.
\<close>

definition bfd_section_init ::
  "bfd_globals \<Rightarrow> bfd \<Rightarrow> nat \<times> nat \<Rightarrow> asection \<Rightarrow> asection option \<times> bfd_globals \<times> bfd" where
  "bfd_section_init g abfd sh newsect =
     (let newsect = newsect\<lparr>s_id := section_id g, s_index := section_count abfd\<rparr>;
          abfd = abfd\<lparr>section_htab := set_section_at (section_htab abfd) sh newsect\<rparr>
      in if \<not> new_section_hook abfd newsect then (None, g, abfd)
         else (Some newsect,
               g\<lparr>section_id := section_id g + 1\<rparr>,
               abfd\<lparr>section_count := section_count abfd + 1,
                     sections := sections abfd @ [s_id newsect]\<rparr>))"

definition bfd_get_section_by_name :: "bfd \<Rightarrow> string \<Rightarrow> asection option" where
  "bfd_get_section_by_name abfd name =
     (case fst (section_hash_lookup (section_htab abfd) name False) of
        Some sh \<Rightarrow> Some (sh_section (entry_at (section_htab abfd) sh))
      | None \<Rightarrow> None)"

text \<open>
  \<^verbatim>\<open>bfd_make_section_anyway_with_flags\<close>. When the entry found already holds a section,
  \<^verbatim>\<open>new_sh->root = sh->root; sh->root.next = &new_sh->root\<close> puts the new entry, with the
  string and hash of \<open>sh\<close>, right after \<open>sh\<close> in the chain.
\<close>

definition bfd_make_section_anyway_with_flags ::
  "bfd_globals \<Rightarrow> bfd \<Rightarrow> string \<Rightarrow> flagword \<Rightarrow> asection option \<times> bfd_globals \<times> bfd" where
  "bfd_make_section_anyway_with_flags g abfd name flags =
     (if output_has_begun abfd
      then (None, g\<lparr>the_bfd_error := bfd_error_invalid_operation\<rparr>, abfd)
      else
        (case section_hash_lookup (section_htab abfd) name True of
           (None, table) \<Rightarrow> (None, g, abfd\<lparr>section_htab := table\<rparr>)
         | (Some sh, table) \<Rightarrow>
             (let newsect = sh_section (entry_at table sh)
              in if s_name newsect \<noteq> None
                 then (let chain = ht_table table (fst sh);
                           new_sh = (entry_at table sh)\<lparr>sh_section := zeroed_section\<rparr>;
                           table = table\<lparr>ht_table := (ht_table table)
                                     (fst sh := take (snd sh + 1) chain @ [new_sh]
                                                  @ drop (snd sh + 1) chain)\<rparr>;
                           newsect = zeroed_section\<lparr>s_flags := flags, s_name := Some name\<rparr>
                       in bfd_section_init g (abfd\<lparr>section_htab := table\<rparr>)
                            (fst sh, snd sh + 1) newsect)
                 else bfd_section_init g (abfd\<lparr>section_htab := table\<rparr>) sh
                        (newsect\<lparr>s_flags := flags, s_name := Some name\<rparr>))))"

definition bfd_make_section_anyway ::
  "bfd_globals \<Rightarrow> bfd \<Rightarrow> string \<Rightarrow> asection option \<times> bfd_globals \<times> bfd" where
  "bfd_make_section_anyway g abfd name = bfd_make_section_anyway_with_flags g abfd name 0"

definition bfd_make_section_with_flags ::
  "bfd_globals \<Rightarrow> bfd \<Rightarrow> string \<Rightarrow> flagword \<Rightarrow> asection option \<times> bfd_globals \<times> bfd" where
  "bfd_make_section_with_flags g abfd name flags =
     (if output_has_begun abfd
      then (None, g\<lparr>the_bfd_error := bfd_error_invalid_operation\<rparr>, abfd)
      else if name = ''*ABS*'' \<or> name = ''*COM*'' \<or> name = ''*UND*'' \<or> name = ''*IND*''
      then (None, g, abfd)
      else
        (case section_hash_lookup (section_htab abfd) name True of
           (None, table) \<Rightarrow> (None, g, abfd\<lparr>section_htab := table\<rparr>)
         | (Some sh, table) \<Rightarrow>
             (let newsect = sh_section (entry_at table sh)
              in if s_name newsect \<noteq> None then (None, g, abfd\<lparr>section_htab := table\<rparr>)
                 else bfd_section_init g (abfd\<lparr>section_htab := table\<rparr>) sh
                        (newsect\<lparr>s_name := Some name, s_flags := flags\<rparr>))))"

definition bfd_make_section ::
  "bfd_globals \<Rightarrow> bfd \<Rightarrow> string \<Rightarrow> asection option \<times> bfd_globals \<times> bfd" where
  "bfd_make_section g abfd name = bfd_make_section_with_flags g abfd name 0"

text \<open>
  \<^verbatim>\<open>sprintf (sname + len, ".%d", num)\<close> writes a dot, the decimal digits of \<open>num\<close> (after
  a minus sign when it is negative) and a terminating NUL.
\<close>

function decimal :: "nat \<Rightarrow> string" where
  "decimal n = (if n < 10 then [char_of (48 + n)]
                else decimal (n div 10) @ [char_of (48 + n mod 10)])"
  by pat_completeness auto
termination
  by (relation "measure id") auto

declare decimal.simps [simp del]

definition sprintf_d :: "int \<Rightarrow> string" where
  "sprintf_d num = (if num < 0 then CHR ''-'' # decimal (nat (- num)) else decimal (nat num))"

datatype unique_name = Aborted | Overrun | Named string int

text \<open>
  The \<^verbatim>\<open>do ... while\<close> loop of \<^verbatim>\<open>bfd_get_unique_section_name\<close>, entered with the first
  \<open>len\<close> characters of the template copied into \<^verbatim>\<open>sname\<close>, a buffer of \<open>len + 8\<close> bytes.
  \<open>Aborted\<close> is the call of \<^verbatim>\<open>abort ()\<close>, \<open>Named sname num\<close> the exit with the name and the
  counter after its increment. \<^verbatim>\<open>sprintf\<close> has 8 bytes from \<^verbatim>\<open>sname + len\<close> to the end of
  the buffer: when the dot, the digits and the NUL are more than 8 bytes it writes past
  the end of the allocation, which is \<open>Overrun\<close>.
\<close>

function unique_name_loop :: "bfd \<Rightarrow> string \<Rightarrow> int \<Rightarrow> unique_name" where
  "unique_name_loop abfd copied num =
     (if num > 999999 then Aborted
      else if length (''.'' @ sprintf_d num) + 1 > 8 then Overrun
      else (let sname = copied @ ''.'' @ sprintf_d num
            in if fst (section_hash_lookup (section_htab abfd) sname False) \<noteq> None
               then unique_name_loop abfd copied (num + 1)
               else Named sname (num + 1)))"
  by pat_completeness auto
termination
  by (relation "measure (\<lambda>(abfd, copied, num). nat (1000000 - num))") auto

declare unique_name_loop.simps [simp del]

text \<open>
  \<^verbatim>\<open>bfd_get_unique_section_name\<close>: \<open>allocated\<close> tells whether \<^verbatim>\<open>bfd_malloc\<close> returns a
  buffer (the function returns the null pointer, \<open>None\<close>, when it does not); \<open>count\<close> is
  \<open>None\<close> for a null pointer, otherwise the value it points to; the result comes with the
  value of \<^verbatim>\<open>*count\<close> on return (a C \<^verbatim>\<open>int\<close>, which the loop never takes past
  1000000). \<^verbatim>\<open>len\<close> is an \<^verbatim>\<open>unsigned int\<close>: it is the length of the
  template modulo \<open>2\<^sup>3\<^sup>2\<close>, and so is the size \<open>len + 8\<close> that is allocated; a size that
  has wrapped is less than the \<open>len\<close> bytes that \<^verbatim>\<open>memcpy\<close> then writes.
\<close>

definition bfd_get_unique_section_name ::
  "bool \<Rightarrow> bfd \<Rightarrow> string \<Rightarrow> int option \<Rightarrow> unique_name option \<times> int option" where
  "bfd_get_unique_section_name allocated abfd templat count =
     (let len = unat (of_nat (length templat) :: uint);
          sz = unat (of_nat (length templat) + 8 :: uint)
      in if \<not> allocated then (None, count)
         else if sz < len then (Some Overrun, count)
         else
           (let num = (case count of None \<Rightarrow> 1 | Some c \<Rightarrow> c)
            in case unique_name_loop abfd (take len templat) num of
                 Aborted \<Rightarrow> (Some Aborted, count)
               | Overrun \<Rightarrow> (Some Overrun, count)
               | Named sname num \<Rightarrow>
                   (Some (Named sname num),
                    case count of None \<Rightarrow> None | Some c \<Rightarrow> Some num)))"

text \<open>An owner in which the one section \<open>x.1\<close> has been created.\<close>

definition scenario_owner :: bfd where
  "scenario_owner =
     \<lparr>filename = ''a.o'', bfd_flags = 0, direction = write_direction,
      output_has_begun = False, sections = [0x10], section_count = 1,
      section_htab = \<lparr>ht_hash = length, ht_size = 7,
        ht_table = (\<lambda>i. []) (3 := [\<lparr>root_string = ''x.1'', root_hash = 3,
           sh_section = \<lparr>s_name = Some ''x.1'', s_id = 0x10, s_index = 0, s_flags = 0,
                          s_size = 0, s_rawsize = 0, s_contents = None\<rparr>\<rparr>]),
        ht_count = 1\<rparr>,
      new_section_hook = (\<lambda>s. True),
      set_section_contents_hook = (\<lambda>s data offset count. True),
      get_section_contents_hook = (\<lambda>s data offset count. (True, data))\<rparr>"

section \<open>Section contents I/O bridge\<close>

text \<open>
  Memory is a store from addresses to bytes. Everything below \<open>w_brk\<close> has been handed
  out; \<^verbatim>\<open>malloc\<close> hands out the next \<open>n\<close> addresses, whose bytes are whatever the store
  holds there, and records the block; \<^verbatim>\<open>free\<close> removes it. Allocation always succeeds.
  \<open>w_error\<close> is the error \<^verbatim>\<open>bfd_set_error\<close> records and \<open>w_calls\<close> the calls made to the
  owning object's writer and reader so far.
\<close>

datatype backend_call =
    Set_contents nat "byte list" file_ptr bfd_size_type
  | Get_contents nat file_ptr bfd_size_type

record world =
  w_heap :: "nat \<Rightarrow> byte"
  w_brk :: nat
  w_allocated :: "nat list"
  w_error :: bfd_error
  w_calls :: "backend_call list"

definition load :: "(nat \<Rightarrow> byte) \<Rightarrow> nat \<Rightarrow> nat \<Rightarrow> byte list" where
  "load h p n = map (\<lambda>i. h (p + i)) [0 ..< n]"

definition store :: "(nat \<Rightarrow> byte) \<Rightarrow> nat \<Rightarrow> byte list \<Rightarrow> (nat \<Rightarrow> byte)" where
  "store h p bs = (\<lambda>a. if p \<le> a \<and> a < p + length bs then bs ! (a - p) else h a)"

definition memcpy :: "(nat \<Rightarrow> byte) \<Rightarrow> nat \<Rightarrow> nat \<Rightarrow> nat \<Rightarrow> (nat \<Rightarrow> byte)" where
  "memcpy h dst src n = store h dst (load h src n)"

definition memset :: "(nat \<Rightarrow> byte) \<Rightarrow> nat \<Rightarrow> byte \<Rightarrow> nat \<Rightarrow> (nat \<Rightarrow> byte)" where
  "memset h dst c n = store h dst (replicate n c)"

definition malloc :: "world \<Rightarrow> nat \<Rightarrow> nat \<times> world" where
  "malloc w n = (w_brk w, w\<lparr>w_brk := w_brk w + n, w_allocated := w_brk w # w_allocated w\<rparr>)"

definition free :: "world \<Rightarrow> nat \<Rightarrow> world" where
  "free w p = w\<lparr>w_allocated := removeAll p (w_allocated w)\<rparr>"

definition size_t_cast :: "bfd_size_type \<Rightarrow> bfd_size_type" where
  "size_t_cast count = ucast (ucast count :: size_t)"


text \<open>
  \<^verbatim>\<open>IsTextSection\<close> returns 1 for a code section and then sets \<^verbatim>\<open>*IsEncrypted\<close>;
  \<open>section_component\<close> is the prologue the two contents functions share: the component
  \<^verbatim>\<open>Comp\<close> of a code section of an owner flagged \<open>BFD_ENCRYPTED\<close>, looked up by the
  owner's file name, and otherwise null. \<^verbatim>\<open>AcquireComponentIV\<close>, which both call on a
  component that is found, only prints a trace line and changes nothing.
\<close>

definition IsTextSection :: "flagword \<Rightarrow> bfd \<Rightarrow> asection \<Rightarrow> int \<times> bool option" where
  "IsTextSection BFD_ENCRYPTED abfd section =
     (if s_flags section AND SEC_CODE \<noteq> 0
      then (1, Some (bfd_flags abfd AND BFD_ENCRYPTED \<noteq> 0))
      else (0, None))"

definition section_component ::
  "flagword \<Rightarrow> EncryptInfoT \<Rightarrow> bfd \<Rightarrow> asection \<Rightarrow> nat option" where
  "section_component BFD_ENCRYPTED EncryptInfo abfd section =
     (case IsTextSection BFD_ENCRYPTED abfd section of
        (r, IsEncrypted) \<Rightarrow>
          if r \<noteq> 0 \<and> IsEncrypted = Some True
          then ComponentLookUp (filename abfd) (Components EncryptInfo)
          else None)"

text \<open>
  The bounds test that both functions make against the size \<open>sz\<close>; the sum is the
  64-bit sum of the source.
\<close>

definition out_of_bounds :: "bfd_size_type \<Rightarrow> file_ptr \<Rightarrow> bfd_size_type \<Rightarrow> bool" where
  "out_of_bounds sz offset count =
     (offset > sz \<or> count > sz \<or> offset + count > sz \<or> count \<noteq> size_t_cast count)"

text \<open>
  \<^verbatim>\<open>if (section->contents && location != section->contents + offset) memcpy (...)\<close>: the
  copy of the caller's data into the section's in-memory contents.
\<close>

definition record_copy :: "world \<Rightarrow> asection \<Rightarrow> nat \<Rightarrow> file_ptr \<Rightarrow> bfd_size_type \<Rightarrow> world" where
  "record_copy w section location offset count =
     (case s_contents section of
        None \<Rightarrow> w
      | Some contents \<Rightarrow>
          if location \<noteq> contents + unat offset
          then w\<lparr>w_heap := memcpy (w_heap w) (contents + unat offset) location
                              (unat (size_t_cast count))\<rparr>
          else w)"



text \<open>
  \<^verbatim>\<open>bfd_get_section_contents\<close> returns its status, the memory and the section, whose
  \<open>SEC_IN_MEMORY\<close> flag one branch clears. The scratch buffer \<^verbatim>\<open>CopyOut\<close> is not
  initialised: the owner's reader is given the bytes the store holds there.
\<close>

definition bfd_get_section_contents ::
  "flagword \<Rightarrow> byte list \<Rightarrow> EncryptInfoT \<Rightarrow> world \<Rightarrow> bfd \<Rightarrow> asection \<Rightarrow> nat \<Rightarrow> file_ptr
     \<Rightarrow> bfd_size_type \<Rightarrow> bool outcome \<times> world \<times> asection" where
  "bfd_get_section_contents BFD_ENCRYPTED buffer EncryptInfo w abfd section location offset count =
     (let Comp = section_component BFD_ENCRYPTED EncryptInfo abfd section
      in if s_flags section AND SEC_CONSTRUCTOR \<noteq> 0
         then (Returns True,
               w\<lparr>w_heap := memset (w_heap w) location 0 (unat (size_t_cast count))\<rparr>, section)
         else
           let sz = (if direction abfd \<noteq> write_direction \<and> s_rawsize section \<noteq> 0
                     then s_rawsize section else s_size section)
           in if out_of_bounds sz offset count
              then (Returns False, w\<lparr>w_error := bfd_error_bad_value\<rparr>, section)
              else if count = 0 then (Returns True, w, section)
              else if s_flags section AND SEC_HAS_CONTENTS = 0
              then (Returns True,
                    w\<lparr>w_heap := memset (w_heap w) location 0 (unat (size_t_cast count))\<rparr>,
                    section)
              else if s_flags section AND SEC_IN_MEMORY \<noteq> 0
              then (case s_contents section of
                      None \<Rightarrow>
                        (Returns False, w\<lparr>w_error := bfd_error_invalid_operation\<rparr>,
                         section\<lparr>s_flags := s_flags section AND NOT SEC_IN_MEMORY\<rparr>)
                    | Some contents \<Rightarrow>
                        (Returns True,
                         w\<lparr>w_heap := memcpy (w_heap w) location (contents + unat offset)
                                        (unat (size_t_cast count))\<rparr>,
                         section))
              else
                (case Comp of
                   Some k \<Rightarrow>
                     (case malloc w (unat count) of (CopyOut, w) \<Rightarrow>
                        (case get_section_contents_hook abfd section
                                (load (w_heap w) CopyOut (unat count)) offset count of
                           (Status, bytes) \<Rightarrow>
                             let w = w\<lparr>w_heap := store (w_heap w) CopyOut (take (unat count) bytes),
                                       w_calls := w_calls w @ [Get_contents CopyOut offset count]\<rparr>
                             in (case EncryptObjSection buffer (Components EncryptInfo ! k)
                                        (load (w_heap w) CopyOut (unat count)) (ucast offset) count of
                                   None \<Rightarrow> (NullDereference, w, section)
                                 | Some decrypted \<Rightarrow>
                                     let w = w\<lparr>w_heap := store (w_heap w) CopyOut decrypted\<rparr>;
                                         w = w\<lparr>w_heap := memcpy (w_heap w) location CopyOut
                                                           (unat (size_t_cast count))\<rparr>
                                     in (Returns Status, free w CopyOut, section))))
                 | None \<Rightarrow>
                     (case get_section_contents_hook abfd section
                             (load (w_heap w) location (unat count)) offset count of
                        (Status, bytes) \<Rightarrow>
                          (Returns Status,
                           w\<lparr>w_heap := store (w_heap w) location (take (unat count) bytes),
                             w_calls := w_calls w @ [Get_contents location offset count]\<rparr>,
                           section))))"

subsection \<open>A concrete scenario\<close>

text \<open>
  The objects at which the statements below are instantiated: the registry of the spec's
  scenario with the component \<open>libc.o\<close> (key, IV and nonce set), an owner \<open>/build/libc.o\<close>
  opened for writing and flagged encrypted (the flag bit taken as \<open>0x8000\<close>) whose writer
  succeeds and whose reader fails leaving the destination as it was, and a memory of
  zeros with everything below address \<open>0x2000\<close> handed out.
\<close>

definition scenario_registry :: EncryptInfoT where
  "scenario_registry =
     \<lparr>Mode = 0, Verbose = 0,
      Components = [\<lparr>c_Name = ''libc.o'', c_Vendor = Some ''V'', c_Server = Some ''S'',
                     c_UserAuth = Some ''U'',
                     c_Key = Some [0, 1, 2, 3, 4, 5, 6, 7, 8, 9, 10, 11, 12, 13, 14, 15],
                     c_Iv = Some [16, 17, 18, 19, 20, 21, 22, 23, 24, 25, 26, 27, 28, 29, 30, 31],
                     c_Nonce = Some [240, 241, 242, 243, 244, 245, 246, 247, 248, 249, 250,
                                     251, 252, 253, 254, 255]\<rparr>],
      OutComponent = None\<rparr>"

text \<open>
  The registry as \<^verbatim>\<open>ProcessEncryptionInfos\<close> leaves it for the same component: key and IV
  from the configuration file, and no nonce.
\<close>

definition parsed_registry :: EncryptInfoT where
  "parsed_registry =
     \<lparr>Mode = 0, Verbose = 0,
      Components = [\<lparr>c_Name = ''libc.o'', c_Vendor = Some ''V'', c_Server = Some ''S'',
                     c_UserAuth = Some ''U'',
                     c_Key = Some [0, 1, 2, 3, 4, 5, 6, 7, 8, 9, 10, 11, 12, 13, 14, 15],
                     c_Iv = Some [16, 17, 18, 19, 20, 21, 22, 23, 24, 25, 26, 27, 28, 29, 30, 31],
                     c_Nonce = None\<rparr>],
      OutComponent = None\<rparr>"

definition scenario_bfd :: bfd where
  "scenario_bfd =
     \<lparr>filename = ''/build/libc.o'', bfd_flags = 0x8000, direction = write_direction,
      output_has_begun = False, sections = [], section_count = 0,
      section_htab = \<lparr>ht_hash = length, ht_size = 7, ht_table = (\<lambda>i. []), ht_count = 0\<rparr>,
      new_section_hook = (\<lambda>s. True),
      set_section_contents_hook = (\<lambda>s data offset count. True),
      get_section_contents_hook = (\<lambda>s data offset count. (False, data))\<rparr>"

definition scenario_world :: world where
  "scenario_world =
     \<lparr>w_heap = (\<lambda>a. 0), w_brk = 0x2000, w_allocated = [], w_error = bfd_error_no_error,
      w_calls = []\<rparr>"

definition scenario_section :: "flagword \<Rightarrow> bfd_size_type \<Rightarrow> asection" where
  "scenario_section flags sz =
     \<lparr>s_name = Some ''.text'', s_id = 0x10, s_index = 0, s_flags = flags, s_size = sz,
      s_rawsize = 0, s_contents = None\<rparr>"

section \<open>Termination of the lexer and the parser\<close>

text \<open>
  Every token read shortens the input, and a record of the configuration needs at least
  one token: the loops of \<open>skip_blanks\<close> and \<open>ProcessComponents_loop\<close> terminate.
\<close>

lemma skip_block_comment_shorter: "skip_block_comment Fi = Some Fi' \<Longrightarrow> length Fi' < length Fi"
  by (induction Fi arbitrary: Fi' rule: skip_block_comment.induct)
     (fastforce split: if_splits)+

lemma skip_line_comment_shorter: "skip_line_comment Fi = Some Fi' \<Longrightarrow> length Fi' < length Fi"
  by (induction Fi arbitrary: Fi' rule: skip_line_comment.induct)
     (fastforce split: if_splits)+

termination skip_blanks
  by (relation "measure (\<lambda>(Fi, LineNo). length Fi)")
     (auto dest: skip_block_comment_shorter skip_line_comment_shorter)


lemma skip_blanks_shorter:
  "skip_blanks Fi LineNo = Skipped c Fi' LineNo' \<Longrightarrow>
     length Fi' \<le> length Fi \<and> (c \<noteq> None \<longrightarrow> length Fi' < length Fi)"
proof (induction "length Fi" arbitrary: Fi LineNo rule: less_induct)
  case less
  show ?case
  proof (cases Fi)
    case Nil
    with less.prems show ?thesis by simp
  next
    case (Cons c0 Fi1)
    note Fi = this
    have rec: "length Fi' \<le> length Fi \<and> (c \<noteq> None \<longrightarrow> length Fi' < length Fi)"
      if "skip_blanks Fi3 L = Skipped c Fi' LineNo'" "length Fi3 < length Fi" for Fi3 L
      using less.hyps [OF that(2) that(1)] that(2) by auto
    show ?thesis
    proof (cases "c0 = CHR ''/''")
      case False
      note noslash = this
      show ?thesis
      proof (cases "c0 = CHR '' '' \<or> c0 = CHR 0x09 \<or> c0 = CHR 0x0A \<or> c0 = CHR 0x0D")
        case False
        with less.prems Fi noslash show ?thesis by auto
      next
        case True
        with less.prems Fi noslash
        have "skip_blanks Fi1 (if c0 = CHR 0x0A then LineNo + 1 else LineNo)
                = Skipped c Fi' LineNo'"
          by (auto split: if_splits)
        then show ?thesis by (rule rec) (simp add: Fi)
      qed
    next
      case True
      note slash = this
      show ?thesis
      proof (cases Fi1)
        case Nil
        with less.prems Fi slash show ?thesis by simp
      next
        case (Cons c2 Fi2)
        note Fi1 = this
        show ?thesis
        proof (cases "c2 = CHR ''*''")
          case True
          with less.prems Fi Fi1 slash obtain Fi3 where
            s: "skip_block_comment Fi2 = Some Fi3" and r: "skip_blanks Fi3 LineNo = Skipped c Fi' LineNo'"
            by (cases "skip_block_comment Fi2") auto
          from skip_block_comment_shorter [OF s] have "length Fi3 < length Fi"
            by (simp add: Fi Fi1)
          with r show ?thesis by (rule rec)
        next
          case False
          note nostar = this
          show ?thesis
          proof (cases "c2 = CHR ''/''")
            case True
            with less.prems Fi Fi1 slash nostar obtain Fi3 where
              s: "skip_line_comment Fi2 = Some Fi3"
              and r: "skip_blanks Fi3 LineNo = Skipped c Fi' LineNo'"
              by (cases "skip_line_comment Fi2") auto
            from skip_line_comment_shorter [OF s] have "length Fi3 < length Fi"
              by (simp add: Fi Fi1)
            with r show ?thesis by (rule rec)
          next
            case False
            with less.prems Fi Fi1 slash nostar show ?thesis by auto
          qed
        qed
      qed
    qed
  qed
qed

lemma read_string_shorter:
  "read_string Fi Str = Some (Str', Fi') \<Longrightarrow> length Fi' < length Fi"
  by (induction Fi Str rule: read_string.induct)
     (fastforce split: if_splits list.splits)+

lemma GetNextToken_shorter:
  assumes "GetNextToken lx Str = (Tok, Str', lx')"
  shows "length (l_Fi lx') \<le> length (l_Fi lx)"
    and "Tok = T_STRING \<Longrightarrow> length (l_Fi lx') < length (l_Fi lx)"
proof -
  show "length (l_Fi lx') \<le> length (l_Fi lx)"
  proof (cases "skip_blanks (l_Fi lx) (l_LineNo lx)")
    case Unterminated
    with assms show ?thesis by (auto simp: GetNextToken_def)
  next
    case (Skipped c F L)
    from skip_blanks_shorter [OF Skipped] have "length F \<le> length (l_Fi lx)" by simp
    moreover have "length (dropWhile isalnum F) \<le> length F" by (rule length_dropWhile_le)
    moreover have "length F'' < length F" if "read_string F [] = Some (S, F'')" for S F''
      using that by (rule read_string_shorter)
    ultimately show ?thesis using assms Skipped
      by (fastforce simp: GetNextToken_def Let_def split: option.splits if_splits)
  qed
  show "length (l_Fi lx') < length (l_Fi lx)" if "Tok = T_STRING"
  proof (cases "skip_blanks (l_Fi lx) (l_LineNo lx)")
    case Unterminated
    with assms that show ?thesis by (auto simp: GetNextToken_def)
  next
    case (Skipped c F L)
    from skip_blanks_shorter [OF Skipped] have "length F \<le> length (l_Fi lx)" by simp
    moreover have "length F'' < length F" if "read_string F [] = Some (S, F'')" for S F''
      using that by (rule read_string_shorter)
    ultimately show ?thesis using assms Skipped that
      by (fastforce simp: GetNextToken_def Let_def split: option.splits if_splits)
  qed
qed

lemma OneSection_value_shorter:
  assumes "OneSection_value ps = (Err, ps')"
  shows "length (l_Fi (p_lex ps')) \<le> length (l_Fi (p_lex ps))"
    and "Err = ERR_NOERR \<Longrightarrow> length (l_Fi (p_lex ps')) < length (l_Fi (p_lex ps))"
proof -
  obtain Tok1 Str1 lx1 where g1: "GetNextToken (p_lex ps) (p_Str ps) = (Tok1, Str1, lx1)"
    by (cases "GetNextToken (p_lex ps) (p_Str ps)")
  obtain Tok2 Str2 lx2 where g2: "GetNextToken lx1 Str1 = (Tok2, Str2, lx2)"
    by (cases "GetNextToken lx1 Str1")
  note l1 = GetNextToken_shorter(1) [OF g1]
  note l2 = GetNextToken_shorter [OF g2]
  show "length (l_Fi (p_lex ps')) \<le> length (l_Fi (p_lex ps))"
    using assms g1 g2 l1 l2(1)
    by (auto simp: OneSection_value_def Let_def split: if_splits)
  show "length (l_Fi (p_lex ps')) < length (l_Fi (p_lex ps))" if "Err = ERR_NOERR"
    using assms g1 g2 l1 l2 that
    by (auto simp: OneSection_value_def Let_def split: if_splits)
qed

lemma OneSection_keyword_shorter:
  assumes "OneSection_keyword Tok ps = (Err, ps')"
  shows "length (l_Fi (p_lex ps')) \<le> length (l_Fi (p_lex ps))"
    and "Err = ERR_NOERR \<Longrightarrow> length (l_Fi (p_lex ps')) < length (l_Fi (p_lex ps))"
  using assms OneSection_value_shorter [of "ps\<lparr>p_Section := Tok\<rparr>" Err ps']
  by (auto simp: OneSection_keyword_def split: if_splits)

lemma OneSection_shorter:
  assumes "OneSection ps = (Err, ps')"
  shows "length (l_Fi (p_lex ps')) \<le> length (l_Fi (p_lex ps))"
    and "Err = ERR_NOERR \<Longrightarrow> length (l_Fi (p_lex ps')) < length (l_Fi (p_lex ps))"
proof -
  obtain Tok1 Str1 lx1 where g1: "GetNextToken (p_lex ps) (p_Str ps) = (Tok1, Str1, lx1)"
    by (cases "GetNextToken (p_lex ps) (p_Str ps)")
  obtain Tok2 Str2 lx2 where g2: "GetNextToken lx1 Str1 = (Tok2, Str2, lx2)"
    by (cases "GetNextToken lx1 Str1")
  note l1 = GetNextToken_shorter(1) [OF g1]
  note l2 = GetNextToken_shorter(1) [OF g2]
  let ?ps1 = "ps\<lparr>p_lex := lx1, p_Str := Str1\<rparr>"
  let ?ps2 = "ps\<lparr>p_Verbose := 1, p_lex := lx2, p_Str := Str2\<rparr>"
  let ?T1 = "if Tok1 = T_NAME then NameToToken Str1 else Tok1"
  let ?T2 = "if Tok2 = T_NAME then NameToToken Str2 else Tok2"
  consider (eof1) "(Err, ps') = (ERR_NOERR_EOF, ?ps1)"
    | (key1) "OneSection_keyword ?T1 ?ps1 = (Err, ps')"
    | (eof2) "(Err, ps') = (ERR_NOERR_EOF, ?ps2)"
    | (key2) "OneSection_keyword ?T2 ?ps2 = (Err, ps')"
  proof (cases "Tok1 = T_EOFT")
    case True
    then have "OneSection ps = (ERR_NOERR_EOF, ?ps1)"
      by (simp add: OneSection_def g1)
    with assms eof1 show ?thesis by simp
  next
    case n1: False
    show ?thesis
    proof (cases "?T1 = T_VERBOSE")
      case False
      with n1 have "OneSection ps = OneSection_keyword ?T1 ?ps1"
        by (simp add: OneSection_def g1 Let_def)
      with assms key1 show ?thesis by simp
    next
      case v: True
      show ?thesis
      proof (cases "Tok2 = T_EOFT")
        case True
        with n1 v have "OneSection ps = (ERR_NOERR_EOF, ?ps2)"
          by (simp add: OneSection_def g1 g2 Let_def)
        with assms eof2 show ?thesis by simp
      next
        case False
        with n1 v have "OneSection ps = OneSection_keyword ?T2 ?ps2"
          by (simp add: OneSection_def g1 g2 Let_def)
        with assms key2 show ?thesis by simp
      qed
    qed
  qed
  then have "length (l_Fi (p_lex ps')) \<le> length (l_Fi (p_lex ps))
     \<and> (Err = ERR_NOERR \<longrightarrow> length (l_Fi (p_lex ps')) < length (l_Fi (p_lex ps)))"
  proof cases
    case eof1
    with l1 show ?thesis by simp
  next
    case key1
    from OneSection_keyword_shorter [OF key1] l1 show ?thesis by auto
  next
    case eof2
    with l1 l2 show ?thesis by simp
  next
    case key2
    from OneSection_keyword_shorter [OF key2] l1 l2 show ?thesis by auto
  qed
  then show "length (l_Fi (p_lex ps')) \<le> length (l_Fi (p_lex ps))"
    and "Err = ERR_NOERR \<Longrightarrow> length (l_Fi (p_lex ps')) < length (l_Fi (p_lex ps))"
    by simp_all
qed

lemma ProcessComponents_record_shorter:
  assumes "ProcessComponents_record ps Comp Head = Continue ps' Comp' Head'"
  shows "length (l_Fi (p_lex ps')) < length (l_Fi (p_lex ps))"
proof -
  obtain E1 ps1 where o1: "OneSection ps = (E1, ps1)" by (cases "OneSection ps")
  obtain E2 ps2 where o2: "OneSection ps1 = (E2, ps2)" by (cases "OneSection ps1")
  obtain E3 ps3 where o3: "OneSection ps2 = (E3, ps3)" by (cases "OneSection ps2")
  obtain E4 ps4 where o4: "OneSection ps3 = (E4, ps4)" by (cases "OneSection ps3")
  obtain E5 ps5 where o5: "OneSection ps4 = (E5, ps5)" by (cases "OneSection ps4")
  obtain E6 ps6 where o6: "OneSection ps5 = (E6, ps6)" by (cases "OneSection ps5")
  note s1 = OneSection_shorter(2) [OF o1]
  note s2 = OneSection_shorter(1) [OF o2]
  note s3 = OneSection_shorter(1) [OF o3]
  note s4 = OneSection_shorter(1) [OF o4]
  note s5 = OneSection_shorter(1) [OF o5]
  note s6 = OneSection_shorter(1) [OF o6]
  have "ps' = ps5 \<or> ps' = ps6" and "E1 = ERR_NOERR"
    using assms o1 o2 o3 o4 o5 o6
    by (auto simp: ProcessComponents_record_def Let_def
             split: if_splits option.splits prod.splits)
  with s1 s2 s3 s4 s5 s6 show ?thesis by auto
qed

termination ProcessComponents_loop
proof (relation "measure (\<lambda>(ps, Comp, Head). length (l_Fi (p_lex ps)))")
  show "wf (measure (\<lambda>(ps, Comp :: nat option, Head :: CryptedComponentT list).
              length (l_Fi (p_lex ps))))"
    by simp
next
  fix ps ps' :: parse_state and Comp Comp' :: "nat option"
    and Head Head' :: "CryptedComponentT list"
  assume "ProcessComponents_record ps Comp Head = Continue ps' Comp' Head'"
  then have "length (l_Fi (p_lex ps')) < length (l_Fi (p_lex ps))"
    by (rule ProcessComponents_record_shorter)
  then show "((ps', Comp', Head'), ps, Comp, Head)
               \<in> measure (\<lambda>(ps, Comp, Head). length (l_Fi (p_lex ps)))"
    by simp
qed

declare ProcessComponents_loop.simps [simp del]

section \<open>Properties of the cipher engine\<close>

lemma block_step:
  fixes pos :: nat
  shows "(pos + 1) mod 16 = (if pos mod 16 = 15 then 0 else pos mod 16 + 1)"
    and "(pos + 1) div 16 = (if pos mod 16 = 15 then pos div 16 + 1 else pos div 16)"
  by (simp_all add: mod_Suc div_Suc)

lemma positioned_step:
  assumes "positioned RoundKey Iv0 pos bi Iv buffer"
  shows "positioned RoundKey Iv0 (pos + 1)
           ((if bi = AES_BLOCKLEN then 0 else bi) + 1)
           (if bi = AES_BLOCKLEN then Iv_increment AES_BLOCKLEN Iv else Iv)
           (if bi = AES_BLOCKLEN then AES_Cipher Iv RoundKey else buffer)
         \<and> (if bi = AES_BLOCKLEN then AES_Cipher Iv RoundKey else buffer)
             ! (if bi = AES_BLOCKLEN then 0 else bi) = keystream RoundKey Iv0 pos"
proof (cases "bi = AES_BLOCKLEN")
  case True
  with assms have p: "pos mod 16 = 0" and iv: "Iv = (Iv_increment 16 ^^ (pos div 16)) Iv0"
    by (auto simp: positioned_def)
  from p have d: "(pos + 1) div 16 = pos div 16" and m: "(pos + 1) mod 16 = 1"
    using block_step [of pos] by simp_all
  show ?thesis using True p iv d m
    by (simp add: positioned_def keystream_def)
next
  case False
  with assms have b: "0 < bi" "bi < 16" and p: "pos mod 16 = bi"
    and iv: "Iv = (Iv_increment 16 ^^ (pos div 16 + 1)) Iv0"
    and bf: "buffer = AES_Cipher ((Iv_increment 16 ^^ (pos div 16)) Iv0) RoundKey"
    by (auto simp: positioned_def)
  show ?thesis
  proof (cases "bi = 15")
    case True
    with p have d: "(pos + 1) div 16 = pos div 16 + 1" and m: "(pos + 1) mod 16 = 0"
      using block_step [of pos] by simp_all
    show ?thesis using True False p iv bf d m
      by (simp add: positioned_def keystream_def)
  next
    case f: False
    with b p have d: "(pos + 1) div 16 = pos div 16" and m: "(pos + 1) mod 16 = bi + 1"
      using block_step [of pos] by simp_all
    show ?thesis using f False b p iv bf d m
      by (simp add: positioned_def keystream_def)
  qed
qed


lemma xcrypt_loop_unfold:
  "i < len \<Longrightarrow> xcrypt_loop RoundKey len i bi Iv buffer buf
     = xcrypt_loop RoundKey len (i + 1) ((if bi = AES_BLOCKLEN then 0 else bi) + 1)
         (if bi = AES_BLOCKLEN then Iv_increment AES_BLOCKLEN Iv else Iv)
         (if bi = AES_BLOCKLEN then AES_Cipher Iv RoundKey else buffer)
         (buf[i := buf ! i XOR (if bi = AES_BLOCKLEN then AES_Cipher Iv RoundKey else buffer)
                                ! (if bi = AES_BLOCKLEN then 0 else bi)])"
  by (subst xcrypt_loop.simps) simp

lemma xcrypt_loop_stop:
  "\<not> i < len \<Longrightarrow> xcrypt_loop RoundKey len i bi Iv buffer buf = (Iv, buf)"
  by (subst xcrypt_loop.simps) simp

lemma seek_loop_unfold:
  "i < from \<Longrightarrow> seek_loop RoundKey from i bi Iv buffer
     = seek_loop RoundKey from (i + 1) ((if bi = AES_BLOCKLEN then 0 else bi) + 1)
         (if bi = AES_BLOCKLEN then Iv_increment AES_BLOCKLEN Iv else Iv)
         (if bi = AES_BLOCKLEN
          then (if i + AES_BLOCKLEN \<ge> from then AES_Cipher Iv RoundKey else buffer)
          else buffer)"
  by (subst seek_loop.simps) simp

lemma seek_loop_stop:
  "\<not> i < from \<Longrightarrow> seek_loop RoundKey from i bi Iv buffer = (bi, Iv, buffer)"
  by (subst seek_loop.simps) simp

lemma xcrypt_loop_nth:
  assumes "positioned RoundKey Iv0 pos bi Iv buffer" "len \<le> length buf"
  shows "length (snd (xcrypt_loop RoundKey len i bi Iv buffer buf)) = length buf
       \<and> (\<forall>j < length buf. snd (xcrypt_loop RoundKey len i bi Iv buffer buf) ! j =
            (if i \<le> j \<and> j < len then buf ! j XOR keystream RoundKey Iv0 (pos + (j - i))
             else buf ! j))"
  using assms
proof (induction "len - i" arbitrary: i bi Iv buffer buf pos)
  case 0
  then have "xcrypt_loop RoundKey len i bi Iv buffer buf = (Iv, buf)"
    by (simp add: xcrypt_loop_stop)
  with 0 show ?case by auto
next
  case (Suc n)
  then have lt: "i < len" by simp
  let ?Iv = "if bi = AES_BLOCKLEN then Iv_increment AES_BLOCKLEN Iv else Iv"
  let ?buffer = "if bi = AES_BLOCKLEN then AES_Cipher Iv RoundKey else buffer"
  let ?bi = "if bi = AES_BLOCKLEN then 0 else bi"
  let ?buf = "buf[i := buf ! i XOR ?buffer ! ?bi]"
  from positioned_step [OF Suc.prems(1)]
  have st: "positioned RoundKey Iv0 (pos + 1) (?bi + 1) ?Iv ?buffer"
    and ks: "?buffer ! ?bi = keystream RoundKey Iv0 pos" by simp_all
  have unfold: "xcrypt_loop RoundKey len i bi Iv buffer buf
              = xcrypt_loop RoundKey len (i + 1) (?bi + 1) ?Iv ?buffer ?buf"
    using lt by (rule xcrypt_loop_unfold)
  have len: "len \<le> length ?buf" using Suc.prems(2) by simp
  have n: "n = len - (i + 1)" using Suc.hyps(2) by simp
  have IH: "length (snd (xcrypt_loop RoundKey len (i + 1) (?bi + 1) ?Iv ?buffer ?buf))
              = length ?buf
     \<and> (\<forall>j < length ?buf.
          snd (xcrypt_loop RoundKey len (i + 1) (?bi + 1) ?Iv ?buffer ?buf) ! j =
          (if i + 1 \<le> j \<and> j < len
           then ?buf ! j XOR keystream RoundKey Iv0 (pos + 1 + (j - (i + 1)))
           else ?buf ! j))"
    by (rule Suc.hyps(1) [OF n st len])
  show ?case
  proof (intro conjI allI impI)
    show "length (snd (xcrypt_loop RoundKey len i bi Iv buffer buf)) = length buf"
      using IH unfold by simp
  next
    fix j assume j: "j < length buf"
    show "snd (xcrypt_loop RoundKey len i bi Iv buffer buf) ! j =
          (if i \<le> j \<and> j < len then buf ! j XOR keystream RoundKey Iv0 (pos + (j - i))
           else buf ! j)"
    proof (cases "j = i")
      case True
      then show ?thesis using IH unfold j ks lt by simp
    next
      case False
      have "pos + 1 + (j - (i + 1)) = pos + (j - i)" if "i + 1 \<le> j"
        using that by simp
      then show ?thesis using IH unfold j False by auto
    qed
  qed
qed

lemma seek_loop_positioned:
  assumes "i \<le> from"
    and "(bi = AES_BLOCKLEN \<and> i mod AES_BLOCKLEN = 0
            \<and> Iv = (Iv_increment AES_BLOCKLEN ^^ (i div AES_BLOCKLEN)) Iv0)
       \<or> (0 < bi \<and> bi < AES_BLOCKLEN \<and> i mod AES_BLOCKLEN = bi
            \<and> Iv = (Iv_increment AES_BLOCKLEN ^^ (i div AES_BLOCKLEN + 1)) Iv0
            \<and> (from \<le> i - bi + AES_BLOCKLEN \<longrightarrow>
                 buffer = AES_Cipher ((Iv_increment AES_BLOCKLEN ^^ (i div AES_BLOCKLEN)) Iv0)
                            RoundKey))"
  shows "case seek_loop RoundKey from i bi Iv buffer of
           (bi', Iv', buffer') \<Rightarrow> positioned RoundKey Iv0 from bi' Iv' buffer'"
  using assms
proof (induction "from - i" arbitrary: i bi Iv buffer)
  case 0
  then have i: "i = from" by simp
  have e: "seek_loop RoundKey from i bi Iv buffer = (bi, Iv, buffer)"
    using i by (simp add: seek_loop_stop)
  have "from - bi + 16 \<ge> from" if "bi < 16" "from mod 16 = bi"
    using that mod_less_eq_dividend [of "from" 16] by simp
  with 0(3) i show ?case unfolding e by (auto simp: positioned_def)
next
  case (Suc n)
  then have lt: "i < from" by simp
  let ?Iv = "if bi = AES_BLOCKLEN then Iv_increment AES_BLOCKLEN Iv else Iv"
  let ?buffer = "if bi = AES_BLOCKLEN
                 then (if i + AES_BLOCKLEN \<ge> from then AES_Cipher Iv RoundKey else buffer)
                 else buffer"
  let ?bi = "if bi = AES_BLOCKLEN then 0 else bi"
  have unfold: "seek_loop RoundKey from i bi Iv buffer
              = seek_loop RoundKey from (i + 1) (?bi + 1) ?Iv ?buffer"
    using lt by (rule seek_loop_unfold)
  have n: "n = from - (i + 1)" using Suc.hyps(2) by simp
  have le: "i + 1 \<le> from" using lt by simp
  have inv: "(?bi + 1 = AES_BLOCKLEN \<and> (i + 1) mod AES_BLOCKLEN = 0
            \<and> ?Iv = (Iv_increment AES_BLOCKLEN ^^ ((i + 1) div AES_BLOCKLEN)) Iv0)
       \<or> (0 < ?bi + 1 \<and> ?bi + 1 < AES_BLOCKLEN \<and> (i + 1) mod AES_BLOCKLEN = ?bi + 1
            \<and> ?Iv = (Iv_increment AES_BLOCKLEN ^^ ((i + 1) div AES_BLOCKLEN + 1)) Iv0
            \<and> (from \<le> (i + 1) - (?bi + 1) + AES_BLOCKLEN \<longrightarrow>
                 ?buffer = AES_Cipher ((Iv_increment AES_BLOCKLEN ^^ ((i + 1) div AES_BLOCKLEN)) Iv0)
                            RoundKey))"
  proof (cases "bi = AES_BLOCKLEN")
    case True
    with Suc.prems(2) have p: "i mod 16 = 0" and iv: "Iv = (Iv_increment 16 ^^ (i div 16)) Iv0"
      by auto
    from p have d: "(i + 1) div 16 = i div 16" and m: "(i + 1) mod 16 = 1"
      using block_step [of i] by simp_all
    show ?thesis using True p iv d m by simp
  next
    case False
    with Suc.prems(2) have b: "0 < bi" "bi < 16" and p: "i mod 16 = bi"
      and iv: "Iv = (Iv_increment 16 ^^ (i div 16 + 1)) Iv0"
      and bf: "from \<le> i - bi + 16 \<longrightarrow>
               buffer = AES_Cipher ((Iv_increment 16 ^^ (i div 16)) Iv0) RoundKey"
      by auto
    have ge: "bi \<le> i" using p by (metis mod_less_eq_dividend)
    show ?thesis
    proof (cases "bi = 15")
      case True
      with p have d: "(i + 1) div 16 = i div 16 + 1" and m: "(i + 1) mod 16 = 0"
        using block_step [of i] by simp_all
      show ?thesis using True False p iv d m by simp
    next
      case f: False
      with b p have d: "(i + 1) div 16 = i div 16" and m: "(i + 1) mod 16 = bi + 1"
        using block_step [of i] by simp_all
      have "i + 1 - (bi + 1) = i - bi" by simp
      then show ?thesis using f False b p iv bf d m by simp
    qed
  qed
  show ?case unfolding unfold by (rule Suc.hyps(1) [OF n le inv])
qed


lemma positioned_start: "positioned RoundKey Iv 0 AES_BLOCKLEN Iv buffer"
  by (simp add: positioned_def)

lemma AES_CTR_xcrypt_buffer_nth:
  assumes "len \<le> length buf"
  shows "length (snd (AES_CTR_xcrypt_buffer buffer ctx buf len)) = length buf"
    and "j < length buf \<Longrightarrow> snd (AES_CTR_xcrypt_buffer buffer ctx buf len) ! j =
           (if j < len then buf ! j XOR keystream (ctx_RoundKey ctx) (ctx_Iv ctx) j else buf ! j)"
  using xcrypt_loop_nth [where i = 0 and pos = 0 and RoundKey = "ctx_RoundKey ctx"
          and Iv0 = "ctx_Iv ctx" and Iv = "ctx_Iv ctx" and bi = AES_BLOCKLEN
          and buffer = buffer, OF positioned_start assms]
  by (auto simp: AES_CTR_xcrypt_buffer_def split: prod.splits)

lemma AES_CTR_xcrypt_buffer_From_nth:
  assumes "len \<le> length buf"
  shows "length (snd (AES_CTR_xcrypt_buffer_From buffer ctx buf from len)) = length buf"
    and "j < length buf \<Longrightarrow> snd (AES_CTR_xcrypt_buffer_From buffer ctx buf from len) ! j =
           (if j < len then buf ! j XOR keystream (ctx_RoundKey ctx) (ctx_Iv ctx) (unat from + j)
            else buf ! j)"
proof -
  obtain bi Iv' buffer' where
    s: "seek_loop (ctx_RoundKey ctx) (unat from) 0 AES_BLOCKLEN (ctx_Iv ctx) buffer
          = (bi, Iv', buffer')"
    by (cases "seek_loop (ctx_RoundKey ctx) (unat from) 0 AES_BLOCKLEN (ctx_Iv ctx) buffer")
  have "case seek_loop (ctx_RoundKey ctx) (unat from) 0 AES_BLOCKLEN (ctx_Iv ctx) buffer of
          (bi', Iv', buffer') \<Rightarrow> positioned (ctx_RoundKey ctx) (ctx_Iv ctx) (unat from) bi' Iv' buffer'"
    by (rule seek_loop_positioned) simp_all
  then have p: "positioned (ctx_RoundKey ctx) (ctx_Iv ctx) (unat from) bi Iv' buffer'"
    by (simp add: s)
  from xcrypt_loop_nth [where i = 0, OF p assms]
  show "length (snd (AES_CTR_xcrypt_buffer_From buffer ctx buf from len)) = length buf"
    and "j < length buf \<Longrightarrow> snd (AES_CTR_xcrypt_buffer_From buffer ctx buf from len) ! j =
           (if j < len then buf ! j XOR keystream (ctx_RoundKey ctx) (ctx_Iv ctx) (unat from + j)
            else buf ! j)"
    by (auto simp: AES_CTR_xcrypt_buffer_From_def s split: prod.splits)
qed

text \<open>
  Claim C1 (cipher offset invariance). For every key, stored IV, nonce and plaintext \<open>P\<close>,
  and every offset \<open>from\<close> and length \<open>L\<close> with \<open>from + L \<le> length P\<close>: the bytes
  \<open>[from, from + L)\<close> of \<^verbatim>\<open>AES_CTR_xcrypt_buffer\<close> run over all of \<open>P\<close> are the result of
  \<^verbatim>\<open>AES_CTR_xcrypt_buffer_From\<close> run over the sub-buffer \<open>P[from, from + L)\<close> with that
  \<open>from\<close>, both started from the context that \<^verbatim>\<open>AES_init_ctx\<close> and \<^verbatim>\<open>AES_ctx_set_iv\<close>
  derive. The result does not depend on what the uninitialised local \<^verbatim>\<open>buffer\<close> of either
  function holds on entry.
\<close>

theorem C1_cipher_offset_invariance:
  fixes ctx0 :: AES_ctx and key iv nonce :: "byte list"
  defines "ctx \<equiv> AES_ctx_set_iv (AES_init_ctx ctx0 key) iv nonce"
  assumes "unat from + L \<le> length P"
  shows "take L (drop (unat from) (snd (AES_CTR_xcrypt_buffer buffer0 ctx P (length P))))
       = snd (AES_CTR_xcrypt_buffer_From buffer1 ctx (take L (drop (unat from) P)) from L)"
proof (rule nth_equalityI)
  have l1: "length (snd (AES_CTR_xcrypt_buffer buffer0 ctx P (length P))) = length P"
    by (rule AES_CTR_xcrypt_buffer_nth) simp
  have lq: "length (take L (drop (unat from) P)) = L" using assms(2) by simp
  have l2: "length (snd (AES_CTR_xcrypt_buffer_From buffer1 ctx (take L (drop (unat from) P)) from L))
              = L"
    using AES_CTR_xcrypt_buffer_From_nth(1) [of L "take L (drop (unat from) P)"] lq by simp
  show "length (take L (drop (unat from) (snd (AES_CTR_xcrypt_buffer buffer0 ctx P (length P)))))
      = length (snd (AES_CTR_xcrypt_buffer_From buffer1 ctx (take L (drop (unat from) P)) from L))"
    using l1 l2 assms(2) by simp
  fix j
  assume "j < length (take L (drop (unat from) (snd (AES_CTR_xcrypt_buffer buffer0 ctx P (length P)))))"
  then have j: "j < L" by simp
  then have jp: "unat from + j < length P" using assms(2) by simp
  have "take L (drop (unat from) (snd (AES_CTR_xcrypt_buffer buffer0 ctx P (length P)))) ! j
      = snd (AES_CTR_xcrypt_buffer buffer0 ctx P (length P)) ! (unat from + j)"
    using j l1 assms(2) by simp
  also have "\<dots> = P ! (unat from + j) XOR keystream (ctx_RoundKey ctx) (ctx_Iv ctx) (unat from + j)"
    using AES_CTR_xcrypt_buffer_nth(2) [of "length P" P "unat from + j"] jp by simp
  also have "\<dots> = take L (drop (unat from) P) ! j
                  XOR keystream (ctx_RoundKey ctx) (ctx_Iv ctx) (unat from + j)"
    using j assms(2) by simp
  also have "\<dots> = snd (AES_CTR_xcrypt_buffer_From buffer1 ctx (take L (drop (unat from) P)) from L) ! j"
    using AES_CTR_xcrypt_buffer_From_nth(2) [of L "take L (drop (unat from) P)" j] lq j by simp
  finally show "take L (drop (unat from) (snd (AES_CTR_xcrypt_buffer buffer0 ctx P (length P)))) ! j
      = snd (AES_CTR_xcrypt_buffer_From buffer1 ctx (take L (drop (unat from) P)) from L) ! j" .
qed

lemma From_involution:
  assumes "len \<le> length buf"
  shows "snd (AES_CTR_xcrypt_buffer_From buffer1 ctx
               (snd (AES_CTR_xcrypt_buffer_From buffer0 ctx buf from len)) from len) = buf"
proof (rule nth_equalityI)
  let ?c = "snd (AES_CTR_xcrypt_buffer_From buffer0 ctx buf from len)"
  have lc: "length ?c = length buf" using assms by (rule AES_CTR_xcrypt_buffer_From_nth)
  then have lenc: "len \<le> length ?c" using assms by simp
  show l: "length (snd (AES_CTR_xcrypt_buffer_From buffer1 ctx ?c from len)) = length buf"
    using AES_CTR_xcrypt_buffer_From_nth(1) [OF lenc] lc by simp
  fix j assume "j < length (snd (AES_CTR_xcrypt_buffer_From buffer1 ctx ?c from len))"
  then have j: "j < length buf" using l by simp
  then have jc: "j < length ?c" using lc by simp
  show "snd (AES_CTR_xcrypt_buffer_From buffer1 ctx ?c from len) ! j = buf ! j"
    using AES_CTR_xcrypt_buffer_From_nth(2) [OF lenc jc]
          AES_CTR_xcrypt_buffer_From_nth(2) [OF assms j]
    by (simp add: xor.assoc)
qed


theorem C1_cipher_offset_invariance_witness:
  "unat (3 :: uint) + 2 \<le> length [1, 2, 3, 4, 5, 6 :: byte] \<and>
   take 2 (drop (unat (3 :: uint)) (snd (AES_CTR_xcrypt_buffer []
       (AES_ctx_set_iv (AES_init_ctx \<lparr>ctx_RoundKey = replicate AES_keyExpSize 0, ctx_Iv = replicate AES_BLOCKLEN 0\<rparr>
           [0, 1, 2, 3, 4, 5, 6, 7, 8, 9, 10, 11, 12, 13, 14, 15]) [16, 17, 18, 19, 20, 21, 22, 23, 24, 25, 26, 27, 28, 29, 30, 31]
           [240, 241, 242, 243, 244, 245, 246, 247, 248, 249, 250, 251, 252, 253, 254, 255])
       [1, 2, 3, 4, 5, 6 :: byte] (length [1, 2, 3, 4, 5, 6 :: byte]))))
   = snd (AES_CTR_xcrypt_buffer_From []
       (AES_ctx_set_iv (AES_init_ctx \<lparr>ctx_RoundKey = replicate AES_keyExpSize 0, ctx_Iv = replicate AES_BLOCKLEN 0\<rparr>
           [0, 1, 2, 3, 4, 5, 6, 7, 8, 9, 10, 11, 12, 13, 14, 15]) [16, 17, 18, 19, 20, 21, 22, 23, 24, 25, 26, 27, 28, 29, 30, 31]
           [240, 241, 242, 243, 244, 245, 246, 247, 248, 249, 250, 251, 252, 253, 254, 255])
       (take 2 (drop (unat (3 :: uint)) [1, 2, 3, 4, 5, 6 :: byte])) 3 2)"
proof -
  have h: "unat (3 :: uint) + 2 \<le> length [1, 2, 3, 4, 5, 6 :: byte]" by simp
  show ?thesis by (rule conjI [OF h C1_cipher_offset_invariance [OF h]])
qed

text \<open>
  Claim C2 (CTR round trip). For every key, stored IV and nonce of a component and every
  buffer \<open>P\<close> of \<open>Len\<close> bytes (\<open>Len\<close> any length, block-aligned or not) at any position
  \<open>Pos\<close>: \<^verbatim>\<open>EncryptObjSection\<close>, which sets up a fresh context and runs the counter-mode
  transform, succeeds, and applied again to its own result gives \<open>P\<close> back.
\<close>

theorem C2_ctr_round_trip:
  fixes Comp :: CryptedComponentT and Name :: string and Vendor Server UserAuth :: "string option"
    and Key iv Nonce :: "byte list"
  defines "Comp \<equiv> \<lparr>c_Name = Name, c_Vendor = Vendor, c_Server = Server, c_UserAuth = UserAuth,
                     c_Key = Some Key, c_Iv = Some iv, c_Nonce = Some Nonce\<rparr>"
  assumes "unat Len \<le> length P"
  shows "Option.bind (EncryptObjSection buffer0 Comp P Pos Len)
           (\<lambda>C. EncryptObjSection buffer1 Comp C Pos Len) = Some P"
proof -
  let ?Ctx = "AES_ctx_set_iv (AES_init_ctx \<lparr>ctx_RoundKey = replicate AES_keyExpSize 0,
                 ctx_Iv = replicate AES_BLOCKLEN 0\<rparr> Key) iv Nonce"
  let ?C = "snd (AES_CTR_xcrypt_buffer_From buffer0 ?Ctx P Pos (unat Len))"
  have enc: "EncryptObjSection buffer Comp B Pos Len
               = Some (snd (AES_CTR_xcrypt_buffer_From buffer ?Ctx B Pos (unat Len)))"
    for buffer B
    unfolding EncryptObjSection_def Comp_def Let_def
    by (simp only: CryptedComponentT.select_convs option.case)
  have "snd (AES_CTR_xcrypt_buffer_From buffer1 ?Ctx ?C Pos (unat Len)) = P"
    using assms(2) by (rule From_involution)
  then show ?thesis unfolding enc by (simp only: Option.bind.simps)
qed

theorem C2_ctr_round_trip_witness:
  "unat (5 :: bfd_size_type) \<le> length [10, 20, 30, 40, 50 :: byte] \<and>
   Option.bind (EncryptObjSection []
       \<lparr>c_Name = ''libc.o'', c_Vendor = Some ''V'', c_Server = Some ''S'', c_UserAuth = Some ''U'',
        c_Key = Some [0, 1, 2, 3, 4, 5, 6, 7, 8, 9, 10, 11, 12, 13, 14, 15],
        c_Iv = Some [16, 17, 18, 19, 20, 21, 22, 23, 24, 25, 26, 27, 28, 29, 30, 31],
        c_Nonce = Some [240, 241, 242, 243, 244, 245, 246, 247, 248, 249, 250, 251, 252, 253, 254, 255]\<rparr>
       [10, 20, 30, 40, 50] 7 5)
     (\<lambda>C. EncryptObjSection []
       \<lparr>c_Name = ''libc.o'', c_Vendor = Some ''V'', c_Server = Some ''S'', c_UserAuth = Some ''U'',
        c_Key = Some [0, 1, 2, 3, 4, 5, 6, 7, 8, 9, 10, 11, 12, 13, 14, 15],
        c_Iv = Some [16, 17, 18, 19, 20, 21, 22, 23, 24, 25, 26, 27, 28, 29, 30, 31],
        c_Nonce = Some [240, 241, 242, 243, 244, 245, 246, 247, 248, 249, 250, 251, 252, 253, 254, 255]\<rparr>
       C 7 5) = Some [10, 20, 30, 40, 50]"
proof -
  have h: "unat (5 :: bfd_size_type) \<le> length [10, 20, 30, 40, 50 :: byte]" by simp
  show ?thesis by (rule conjI [OF h C2_ctr_round_trip [OF h]])
qed

section \<open>Properties of the component store and the configuration parser\<close>

text \<open>
  Claim C5 (IV aggregation), at the registry that holds the output component alone. The
  loop of \<^verbatim>\<open>SetOutComponentIV\<close> skips the output component, so \<^verbatim>\<open>IvOut\<close> is never
  assigned; the function still copies it into the output component's IV and returns 1.
  The stored IV is whatever the uninitialised array held on entry (here the bytes
  \<open>b0 \<dots> b15\<close>), not an XOR of component IVs.
\<close>

theorem C5_output_alone_stores_uninitialised_IvOut:
  "SetOutComponentIV [b0, b1, b2, b3, b4, b5, b6, b7, b8, b9, b10, b11, b12, b13, b14, b15]
     ''build/out.o''
     \<lparr>Mode = 1, Verbose = 0,
      Components = [\<lparr>c_Name = ''out.o'', c_Vendor = Some ''V'', c_Server = Some ''S'',
                     c_UserAuth = Some ''U'', c_Key = Some Key, c_Iv = None, c_Nonce = None\<rparr>],
      OutComponent = None\<rparr>
   = (1, \<lparr>Mode = 1, Verbose = 0,
          Components = [\<lparr>c_Name = ''out.o'', c_Vendor = Some ''V'', c_Server = Some ''S'',
                         c_UserAuth = Some ''U'', c_Key = Some Key,
                         c_Iv = Some [b0, b1, b2, b3, b4, b5, b6, b7, b8, b9, b10, b11, b12,
                                      b13, b14, b15],
                         c_Nonce = None\<rparr>],
          OutComponent = None\<rparr>)"
  by (simp add: SetOutComponentIV_def ComponentLookUp_def upt_rec [of _ "numeral n" for n])

text \<open>
  Claim C7 (duplicate component declaration), at a \<^verbatim>\<open>Component\<close> entry that follows a
  \<^verbatim>\<open>Key\<close> entry and repeats the name \<open>a\<close>. \<^verbatim>\<open>ProcessComponents\<close> stores the null pointer
  \<^verbatim>\<open>PushComponent\<close> returns without testing it. When the file ends there, the load
  returns 1 and installs the list: no error is reported. When a \<^verbatim>\<open>Vendor\<close> entry follows,
  the parser writes through the null pointer.
\<close>

theorem C7_duplicate_after_key_not_reported:
  \<open>ProcessEncryptionInfos
     (Some ''Component="a" Vendor="V" Server="S" User="U" Key="000102030405060708090A0B0C0D0E0F" Component="a"'')
     0 \<lparr>Mode = 0, Verbose = 0, Components = [], OutComponent = None\<rparr>
   = (Returns 1,
      \<lparr>Mode = 0, Verbose = 0,
       Components = [\<lparr>c_Name = ''a'', c_Vendor = Some ''V'', c_Server = Some ''S'',
                      c_UserAuth = Some ''U'',
                      c_Key = Some [0, 1, 2, 3, 4, 5, 6, 7, 8, 9, 10, 11, 12, 13, 14, 15],
                      c_Iv = None, c_Nonce = None\<rparr>],
       OutComponent = None\<rparr>)
   \<and> fst (ProcessEncryptionInfos
     (Some ''Component="a" Vendor="V" Server="S" User="U" Key="000102030405060708090A0B0C0D0E0F" Component="a" Vendor="W"'')
     0 \<lparr>Mode = 0, Verbose = 0, Components = [], OutComponent = None\<rparr>)
   = NullDereference\<close>
  by code_simp

text \<open>
  The sibling path: the same repeated name after an \<^verbatim>\<open>Iv\<close> entry is tested, and the load
  returns 0 with nothing installed.
\<close>

lemma duplicate_after_iv_reported:
  \<open>ProcessEncryptionInfos
     (Some ''Component="a" Vendor="V" Server="S" User="U" Key="000102030405060708090A0B0C0D0E0F" Iv="101112131415161718191A1B1C1D1E1F" Component="a"'')
     0 \<lparr>Mode = 0, Verbose = 0, Components = [], OutComponent = None\<rparr>
   = (Returns 0, \<lparr>Mode = 0, Verbose = 0, Components = [], OutComponent = None\<rparr>)\<close>
  by code_simp


text \<open>
  With \<^verbatim>\<open>Verbose\<close> set by the file, a load that ends right after a \<^verbatim>\<open>Component\<close> entry
  reaches \<^verbatim>\<open>DumpComponents\<close> with a component that has no key.
\<close>

lemma verbose_dump_of_keyless_component:
  \<open>fst (ProcessEncryptionInfos (Some ''Verbose Component="a"'')
          0 \<lparr>Mode = 0, Verbose = 0, Components = [], OutComponent = None\<rparr>)
   = NullDereference\<close>
  by code_simp

text \<open>A NUL character in a key string ends the string that \<^verbatim>\<open>CheckKey\<close> measures.\<close>

lemma CheckKey_stops_at_NUL:
  "fst (CheckKey (''000102030405060708090A0B0C0D0E0F'' @ [CHR 0x00] @ ''FF'') AES_KEY_LEN)
   = ERR_NOERR"
  by code_simp
section \<open>Properties of the section registry\<close>

lemma bfd_get_section_by_name_None:
  "bfd_get_section_by_name abfd name = None
     \<longleftrightarrow> fst (section_hash_lookup (section_htab abfd) name False) = None"
  by (simp add: bfd_get_section_by_name_def split: option.splits)

lemma length_decimal: "0 < k \<Longrightarrow> n < 10 ^ k \<Longrightarrow> length (decimal n) \<le> k"
proof (induction k arbitrary: n)
  case 0
  then show ?case by simp
next
  case (Suc k)
  show ?case
  proof (cases "n < 10")
    case True
    then show ?thesis by (subst decimal.simps) simp
  next
    case False
    with Suc.prems have k: "0 < k" by (cases k) simp_all
    from Suc.prems have "n div 10 < 10 ^ k" by (simp add: less_mult_imp_div_less mult.commute)
    from Suc.IH [OF k this] False show ?thesis by (subst decimal.simps) simp
  qed
qed

lemma sprintf_d_fits:
  assumes "- 99999 \<le> num" and "num \<le> 999999"
  shows "\<not> length (''.'' @ sprintf_d num) + 1 > 8"
proof (cases "num < 0")
  case True
  with assms have "nat (- num) < 10 ^ 5" by simp
  from length_decimal [OF _ this] True show ?thesis by (simp add: sprintf_d_def)
next
  case False
  with assms have "nat num < 10 ^ 6" by simp
  from length_decimal [OF _ this] False show ?thesis by (simp add: sprintf_d_def)
qed

lemma unique_name_loop_unfold:
  "unique_name_loop abfd copied num =
     (if num > 999999 then Aborted
      else if length (''.'' @ sprintf_d num) + 1 > 8 then Overrun
      else if bfd_get_section_by_name abfd (copied @ ''.'' @ sprintf_d num) \<noteq> None
      then unique_name_loop abfd copied (num + 1)
      else Named (copied @ ''.'' @ sprintf_d num) (num + 1))"
  by (subst unique_name_loop.simps) (simp add: bfd_get_section_by_name_None Let_def)

lemma unique_name_loop_result:
  "- 99999 \<le> num \<Longrightarrow>
   (case unique_name_loop abfd templat num of
     Aborted \<Rightarrow>
       (\<forall>n. num \<le> n \<and> n \<le> 999999 \<longrightarrow>
            bfd_get_section_by_name abfd (templat @ ''.'' @ sprintf_d n) \<noteq> None)
   | Overrun \<Rightarrow> False
   | Named sname num' \<Rightarrow>
       num \<le> num' - 1 \<and> num' - 1 \<le> 999999
       \<and> sname = templat @ ''.'' @ sprintf_d (num' - 1)
       \<and> bfd_get_section_by_name abfd sname = None
       \<and> (\<forall>n. num \<le> n \<and> n < num' - 1 \<longrightarrow>
              bfd_get_section_by_name abfd (templat @ ''.'' @ sprintf_d n) \<noteq> None))"
proof (induction "nat (1000000 - num)" arbitrary: num)
  case 0
  then have "num > 999999" by simp
  then show ?case by (subst unique_name_loop_unfold) auto
next
  case (Suc k)
  then have le: "num \<le> 999999" and k: "k = nat (1000000 - (num + 1))"
    and ge: "- 99999 \<le> num + 1" by simp_all
  note fits = sprintf_d_fits [OF Suc.prems le]
  show ?case
  proof (cases "bfd_get_section_by_name abfd (templat @ ''.'' @ sprintf_d num) = None")
    case True
    with le fits show ?thesis by (subst unique_name_loop_unfold) auto
  next
    case False
    have step: "unique_name_loop abfd templat num = unique_name_loop abfd templat (num + 1)"
      using le False fits by (subst unique_name_loop_unfold) simp
    have used: "bfd_get_section_by_name abfd (templat @ ''.'' @ sprintf_d n) \<noteq> None"
      if "num \<le> n" "\<not> num + 1 \<le> n" for n
    proof -
      from that have "n = num" by simp
      with False show ?thesis by simp
    qed
    show ?thesis
    proof (cases "unique_name_loop abfd templat (num + 1)")
      case Aborted
      with Suc.hyps(1) [OF k ge] used show ?thesis unfolding step by (auto simp: Aborted)
    next
      case Overrun
      with Suc.hyps(1) [OF k ge] show ?thesis unfolding step by simp
    next
      case (Named sname num')
      with Suc.hyps(1) [OF k ge] used show ?thesis unfolding step by (auto simp: Named)
    qed
  qed
qed

lemma unat_len:
  assumes "length templat + 8 < 2 ^ 32"
  shows "unat (of_nat (length templat) :: uint) = length templat"
    and "unat (of_nat (length templat) + 8 :: uint) = length templat + 8"
  using assms by (simp_all add: unat_of_nat unat_word_ariths(1))

lemma unique_name_long_template:
  "length templat = 2 ^ 32 - 8
     \<Longrightarrow> bfd_get_unique_section_name True abfd templat count = (Some Overrun, count)"
  by (simp add: bfd_get_unique_section_name_def)

lemma digit_chars: "char_of (48 :: nat) = CHR ''0''" "char_of (49 :: nat) = CHR ''1''"
  by code_simp+

lemma sprintf_d_minus_100000: "sprintf_d (- 100000) = ''-100000''"
  by (simp add: sprintf_d_def decimal.simps digit_chars)

lemma unique_name_loop_overrun: "unique_name_loop abfd copied (- 100000) = Overrun"
  by (subst unique_name_loop.simps) (simp add: sprintf_d_minus_100000)

lemma unique_name_loop_scenario: "unique_name_loop scenario_owner ''x'' 1 = Named ''x.2'' 3"
  by code_simp

text \<open>
  Claim C8 (unique-name generation), as the code has it. \<^verbatim>\<open>bfd_get_unique_section_name\<close>
  is a total function (its loop is defined with the measure \<open>1000000 - num\<close>). When
  \<^verbatim>\<open>bfd_malloc\<close> gives no buffer it returns the null pointer and leaves \<^verbatim>\<open>*count\<close> as it
  was. When the buffer is allocated, the template is shorter than \<open>2\<^sup>3\<^sup>2 - 8\<close> characters and
  the starting counter is at least \<open>-99999\<close>, it never writes past the buffer, and it
  either returns the template extended with a dot and the decimal suffix \<open>num - 1\<close>, where
  \<open>num - 1\<close> is at or after the starting number and at most 999999, the name is not in the
  owner's hash table, every number from the starting one up to it gives a name that is,
  and \<^verbatim>\<open>*count\<close> is left one past the suffix; or it aborts, and then every suffix from the
  starting number to 999999 is in use (none, when the starting number is past 999999).
\<close>

theorem C8_unique_name_smallest_unused_or_abort:
  fixes count :: "int option"
  defines "start \<equiv> (case count of None \<Rightarrow> 1 | Some c \<Rightarrow> c)"
  shows "bfd_get_unique_section_name False abfd templat count = (None, count)
   \<and> (length templat + 8 < 2 ^ 32 \<and> - 99999 \<le> start \<longrightarrow>
     (case bfd_get_unique_section_name True abfd templat count of
     (None, count') \<Rightarrow> False
   | (Some Overrun, count') \<Rightarrow> False
   | (Some Aborted, count') \<Rightarrow>
       count' = count
       \<and> (\<forall>n. start \<le> n \<and> n \<le> 999999 \<longrightarrow>
              bfd_get_section_by_name abfd (templat @ ''.'' @ sprintf_d n) \<noteq> None)
   | (Some (Named sname num), count') \<Rightarrow>
       start \<le> num - 1 \<and> num - 1 \<le> 999999
       \<and> sname = templat @ ''.'' @ sprintf_d (num - 1)
       \<and> bfd_get_section_by_name abfd sname = None
       \<and> (\<forall>n. start \<le> n \<and> n < num - 1 \<longrightarrow>
              bfd_get_section_by_name abfd (templat @ ''.'' @ sprintf_d n) \<noteq> None)
       \<and> count' = (case count of None \<Rightarrow> None | Some c \<Rightarrow> Some num)))"
proof (intro conjI impI)
  show "bfd_get_unique_section_name False abfd templat count = (None, count)"
    by (simp add: bfd_get_unique_section_name_def)
next
  assume h: "length templat + 8 < 2 ^ 32 \<and> - 99999 \<le> start"
  note u = unat_len [OF conjunct1 [OF h]]
  note r = unique_name_loop_result [OF conjunct2 [OF h], where abfd = abfd and templat = templat]
  show "case bfd_get_unique_section_name True abfd templat count of
     (None, count') \<Rightarrow> False
   | (Some Overrun, count') \<Rightarrow> False
   | (Some Aborted, count') \<Rightarrow>
       count' = count
       \<and> (\<forall>n. start \<le> n \<and> n \<le> 999999 \<longrightarrow>
              bfd_get_section_by_name abfd (templat @ ''.'' @ sprintf_d n) \<noteq> None)
   | (Some (Named sname num), count') \<Rightarrow>
       start \<le> num - 1 \<and> num - 1 \<le> 999999
       \<and> sname = templat @ ''.'' @ sprintf_d (num - 1)
       \<and> bfd_get_section_by_name abfd sname = None
       \<and> (\<forall>n. start \<le> n \<and> n < num - 1 \<longrightarrow>
              bfd_get_section_by_name abfd (templat @ ''.'' @ sprintf_d n) \<noteq> None)
       \<and> count' = (case count of None \<Rightarrow> None | Some c \<Rightarrow> Some num)"
  proof (cases "unique_name_loop abfd templat start")
    case Aborted
    with r show ?thesis
      by (auto simp: bfd_get_unique_section_name_def start_def u)
  next
    case Overrun
    with r show ?thesis by simp
  next
    case (Named sname num)
    with r show ?thesis
      by (auto simp: bfd_get_unique_section_name_def start_def u)
  qed
qed

theorem C8_unique_name_witness:
  "length ''x'' + 8 < (2 :: nat) ^ 32 \<and> - 99999 \<le> (1 :: int)
     \<and> bfd_get_unique_section_name False scenario_owner ''x'' (Some 1) = (None, Some 1)
     \<and> bfd_get_unique_section_name True scenario_owner ''x'' (Some 1)
         = (Some (Named ''x.2'' 3), Some 3)
     \<and> bfd_get_section_by_name scenario_owner ''x.1'' \<noteq> None
     \<and> bfd_get_section_by_name scenario_owner ''x.2'' = None"
proof -
  have e: "bfd_get_unique_section_name True scenario_owner ''x'' (Some 1)
             = (Some (Named ''x.2'' 3), Some 3)"
    by (simp add: bfd_get_unique_section_name_def unique_name_loop_scenario)
  have d: "sprintf_d 1 = ''1''" "sprintf_d 2 = ''2''" by code_simp+
  from C8_unique_name_smallest_unused_or_abort [of scenario_owner "''x''" "Some 1"]
  have n: "bfd_get_unique_section_name False scenario_owner ''x'' (Some 1) = (None, Some 1)"
    and "bfd_get_section_by_name scenario_owner ''x.2'' = None
      \<and> (\<forall>n. 1 \<le> n \<and> n < 2 \<longrightarrow>
             bfd_get_section_by_name scenario_owner (''x'' @ ''.'' @ sprintf_d n) \<noteq> None)"
    unfolding e by (simp_all add: d)
  then have "bfd_get_section_by_name scenario_owner ''x.2'' = None"
    and "bfd_get_section_by_name scenario_owner (''x'' @ ''.'' @ sprintf_d 1) \<noteq> None"
    by simp_all
  with e d n show ?thesis by simp
qed

text \<open>
  Where the claim as stated fails. With no buffer from \<^verbatim>\<open>bfd_malloc\<close> the function returns
  the null pointer: neither a name nor an abort. From the starting counter \<open>-100000\<close> the
  first \<^verbatim>\<open>sprintf\<close> writes the 9 bytes of \<open>.-100000\<close> and its NUL into the 8 that are left
  of the buffer. For a template of \<open>2\<^sup>3\<^sup>2 - 8\<close> characters the allocated size \<open>len + 8\<close> wraps
  to 0.
\<close>

theorem C8_no_name_counterexample:
  "bfd_get_unique_section_name False scenario_owner ''x'' (Some 1) = (None, Some 1)
   \<and> bfd_get_unique_section_name True scenario_owner ''x'' (Some (- 100000))
       = (Some Overrun, Some (- 100000))
   \<and> sprintf_d (- 100000) = ''-100000''
   \<and> bfd_get_unique_section_name True scenario_owner (replicate (2 ^ 32 - 8) CHR ''x'') (Some 1)
       = (Some Overrun, Some 1)"
proof (intro conjI)
  show "bfd_get_unique_section_name False scenario_owner ''x'' (Some 1) = (None, Some 1)"
    by (simp add: bfd_get_unique_section_name_def)
  show "bfd_get_unique_section_name True scenario_owner ''x'' (Some (- 100000))
       = (Some Overrun, Some (- 100000))"
    by (simp add: bfd_get_unique_section_name_def unique_name_loop_overrun)
  show "sprintf_d (- 100000) = ''-100000''"
    by (rule sprintf_d_minus_100000)
  have "length (replicate (2 ^ 32 - 8) CHR ''x'') = 2 ^ 32 - 8"
    by (simp only: length_replicate)
  then show "bfd_get_unique_section_name True scenario_owner (replicate (2 ^ 32 - 8) CHR ''x'')
       (Some 1) = (Some Overrun, Some 1)"
    by (rule unique_name_long_template)
qed

text \<open>
  Claim C4 (duplicate-name lookup order), at an owner in which the name \<open>.text\<close> is created
  twice with \<^verbatim>\<open>bfd_make_section_anyway_with_flags\<close>, for every hash function and table
  size. The second call finds the entry of the first section and links the new entry
  after it, so the lookup of \<^verbatim>\<open>bfd_get_section_by_name\<close> still stops at the first entry:
  it returns the section created first (index 0, flags \<open>f1\<close>), not the one created last
  (index 1, flags \<open>f2\<close>).
\<close>

theorem C4_lookup_returns_first_created:
  fixes abfd0 :: bfd and g0 :: bfd_globals and H :: "string \<Rightarrow> nat" and n :: nat
  defines "abfd0 \<equiv> \<lparr>filename = ''a.o'', bfd_flags = 0, direction = write_direction,
      output_has_begun = False, sections = [], section_count = 0,
      section_htab = \<lparr>ht_hash = H, ht_size = n, ht_table = (\<lambda>i. []), ht_count = 0\<rparr>,
      new_section_hook = (\<lambda>s. True),
      set_section_contents_hook = (\<lambda>s data offset count. True),
      get_section_contents_hook = (\<lambda>s data offset count. (True, data))\<rparr>"
    and "g0 \<equiv> \<lparr>section_id = 0x10, the_bfd_error = bfd_error_no_error\<rparr>"
  shows "case bfd_make_section_anyway_with_flags g0 abfd0 ''.text'' f1 of
           (first, g1, abfd1) \<Rightarrow>
             (case bfd_make_section_anyway_with_flags g1 abfd1 ''.text'' f2 of
                (second, g2, abfd2) \<Rightarrow>
                  first = Some \<lparr>s_name = Some ''.text'', s_id = 0x10, s_index = 0, s_flags = f1,
                                s_size = 0, s_rawsize = 0, s_contents = None\<rparr>
                  \<and> second = Some \<lparr>s_name = Some ''.text'', s_id = 0x11, s_index = 1,
                                   s_flags = f2, s_size = 0, s_rawsize = 0, s_contents = None\<rparr>
                  \<and> sections abfd2 = [0x10, 0x11]
                  \<and> bfd_get_section_by_name abfd2 ''.text'' = first
                  \<and> bfd_get_section_by_name abfd2 ''.text'' \<noteq> second)"
  by (simp add: abfd0_def g0_def bfd_make_section_anyway_with_flags_def
        section_hash_lookup_def bfd_hash_lookup_def bfd_section_init_def entry_at_def
        set_section_at_def zeroed_section_def bfd_get_section_by_name_def Let_def)

section \<open>Properties of the contents I/O bridge\<close>

lemma size_t_cast_id [simp]: "size_t_cast count = count"
  by (simp add: size_t_cast_def)



lemma record_copy_fields [simp]:
  "w_brk (record_copy w sec location offset count) = w_brk w"
  "w_allocated (record_copy w sec location offset count) = w_allocated w"
  "w_error (record_copy w sec location offset count) = w_error w"
  "w_calls (record_copy w sec location offset count) = w_calls w"
  by (simp_all add: record_copy_def split: option.splits)



lemma length_load [simp]: "length (load h p n) = n"
  by (simp add: load_def)

lemma nth_load [simp]: "i < n \<Longrightarrow> load h p n ! i = h (p + i)"
  by (simp add: load_def)

lemma load_store_same: "n = length bs \<Longrightarrow> load (store h p bs) p n = bs"
  by (rule nth_equalityI) (simp_all add: store_def)

lemma store_outside: "a < p \<or> p + length bs \<le> a \<Longrightarrow> store h p bs a = h a"
  by (auto simp: store_def)


lemma load_memset: "load (memset h p c n) p n = replicate n c"
  by (simp add: memset_def load_store_same)




text \<open>
  The registry \<open>parsed_registry\<close> is what loading a configuration file gives, and
  \<^verbatim>\<open>ComponentNonceUpdate\<close> makes \<open>scenario_registry\<close> of it.
\<close>

lemma parsed_registry_loaded:
  \<open>ProcessEncryptionInfos
     (Some ''Component="libc.o" Vendor="V" Server="S" User="U" Key="000102030405060708090A0B0C0D0E0F" Iv="101112131415161718191A1B1C1D1E1F"'')
     0 \<lparr>Mode = 0, Verbose = 0, Components = [], OutComponent = None\<rparr>
   = (Returns 1, parsed_registry)\<close>
  by code_simp

lemma scenario_registry_updated:
  "ComponentNonceUpdate ''/build/libc.o''
     [240, 241, 242, 243, 244, 245, 246, 247, 248, 249, 250, 251, 252, 253, 254, 255]
     parsed_registry
   = (1, scenario_registry)"
  by code_simp







text \<open>
  Claim C10 (constructor reads bypass the bounds check). For a section with
  \<open>SEC_CONSTRUCTOR\<close> set, and every offset and count, in or out of the bounds of the
  section's size or raw size: \<^verbatim>\<open>bfd_get_section_contents\<close> returns success, the memory
  differs from before only in the \<open>count\<close> bytes at \<open>location\<close>, which are zero, no error
  is recorded and the owner's reader is not called.
\<close>

theorem C10_constructor_read_zero_fills:
  assumes "s_flags section AND SEC_CONSTRUCTOR \<noteq> 0"
  shows "bfd_get_section_contents BFD_ENCRYPTED buffer EncryptInfo w abfd section location
           offset count
         = (Returns True, w\<lparr>w_heap := memset (w_heap w) location 0 (unat count)\<rparr>, section)
       \<and> load (memset (w_heap w) location 0 (unat count)) location (unat count)
           = replicate (unat count) 0
       \<and> (\<forall>a. a < location \<or> location + unat count \<le> a \<longrightarrow>
              memset (w_heap w) location 0 (unat count) a = w_heap w a)"
  using assms
  by (simp add: bfd_get_section_contents_def Let_def load_memset)
     (simp add: memset_def store_outside)

theorem C10_constructor_read_witness:
  "s_flags (scenario_section SEC_CONSTRUCTOR 4) AND SEC_CONSTRUCTOR \<noteq> 0
   \<and> out_of_bounds (s_size (scenario_section SEC_CONSTRUCTOR 4)) 100 8
   \<and> bfd_get_section_contents 0x8000 [] scenario_registry
        (scenario_world\<lparr>w_heap := (\<lambda>a. 0xFF)\<rparr>) scenario_bfd
        (scenario_section SEC_CONSTRUCTOR 4) 0x1000 100 8
      = (Returns True,
         scenario_world\<lparr>w_heap := memset (\<lambda>a. 0xFF) 0x1000 0 (unat (8 :: bfd_size_type))\<rparr>,
         scenario_section SEC_CONSTRUCTOR 4)
   \<and> load (memset (\<lambda>a. 0xFF) 0x1000 0 (unat (8 :: bfd_size_type))) 0x1000
        (unat (8 :: bfd_size_type)) = replicate (unat (8 :: bfd_size_type)) 0"
proof -
  have h: "s_flags (scenario_section SEC_CONSTRUCTOR 4) AND SEC_CONSTRUCTOR \<noteq> 0"
    by (simp add: scenario_section_def)
  have o: "out_of_bounds (s_size (scenario_section SEC_CONSTRUCTOR 4)) 100 8"
    by (simp add: scenario_section_def out_of_bounds_def)
  from C10_constructor_read_zero_fills [OF h, of "0x8000" "[]" scenario_registry
         "scenario_world\<lparr>w_heap := (\<lambda>a. 0xFF)\<rparr>" scenario_bfd "0x1000" 100 8] h o
  show ?thesis by simp
qed










end
